theory Spec2Isabelle
  imports Complex_Main "HOL-Library.Sublist" "HOL-Library.AList"
begin

section \<open>Errors\<close>

text \<open>
  The exceptions the two source files raise, as values. \<open>InvalidUTM\<close> is the
  \<^verbatim>\<open>RuntimeError("Invalid UTM: ...")\<close> of \<^verbatim>\<open>compute_utm_zone\<close>,
  \<open>WorkingDirConflict\<close> the \<^verbatim>\<open>ValueError\<close> of \<^verbatim>\<open>create_working_dir\<close>,
  \<open>ValueError\<close> the one \<^verbatim>\<open>float()\<close> raises on a malformed literal,
  \<open>KeyError k\<close> a dictionary lookup of the missing key \<open>k\<close>, and
  \<open>StageFailure n\<close> an exception escaping from the external tool \<open>n\<close>.
\<close>

datatype error =
    InvalidUTM
  | WorkingDirConflict
  | ValueError
  | KeyError string
  | StageFailure string

section \<open>gdal\_utils.py: UTM zones\<close>

text \<open>
  Python floats are modelled as exact reals: the comparisons, \<^verbatim>\<open>math.fmod\<close> and
  \<^verbatim>\<open>int()\<close> below are the mathematical operations, without rounding, NaN or
  infinities.

  \<^verbatim>\<open>int(x)\<close> on a float truncates towards zero; \<^verbatim>\<open>math.fmod(x, y)\<close> is the C
  remainder \<open>x - y * trunc (x / y)\<close>, which carries the sign of \<open>x\<close>.
\<close>

definition py_int :: "real \<Rightarrow> int" where
  "py_int x = (if 0 \<le> x then \<lfloor>x\<rfloor> else \<lceil>x\<rceil>)"

definition fmod :: "real \<Rightarrow> real \<Rightarrow> real" where
  "fmod x y = x - y * of_int (py_int (x / y))"

datatype hemisphere = N | S

text \<open>The first two statements of \<^verbatim>\<open>compute_utm_zone\<close>.\<close>

definition norm_lon :: "real \<Rightarrow> real" where
  "norm_lon lon = fmod (lon + 180) 360 - 180"

definition norm_lat :: "real \<Rightarrow> real" where
  "norm_lat lat = fmod (lat + 90) 180 - 90"

text \<open>The zone the branches of \<^verbatim>\<open>compute_utm_zone\<close> assign; \<open>0\<close> is the initial value.\<close>

definition utm_zone_of :: "real \<Rightarrow> real \<Rightarrow> int" where
  "utm_zone_of lon lat =
     (if -80 \<le> lat \<and> lat \<le> 84 then
        if lat \<ge> 72 \<and> 0 \<le> lon \<and> lon < 42 then
          if lon < 9 then 31
          else if lon < 21 then 33
          else if lon < 33 then 35
          else 37
        else if 56 \<le> lat \<and> lat < 64 \<and> 0 \<le> lon \<and> lon < 12 then
          if lon < 3 then 31 else 32
        else py_int (of_int (py_int lon + 180) / 6 + 1)
      else 0)"

definition compute_utm_zone :: "real \<Rightarrow> real \<Rightarrow> error + (int \<times> hemisphere)" where
  "compute_utm_zone lon0 lat0 =
     (let lon = norm_lon lon0;
          lat = norm_lat lat0;
          hemisphere = (if lat > 0 then N else S);
          zone = utm_zone_of lon lat
      in if zone = 0 then Inl InvalidUTM else Inr (zone, hemisphere))"

section \<open>gdal\_utils.py: bounding boxes\<close>

text \<open>
  The six coefficients \<^verbatim>\<open>transform[0..5]\<close> of a GDAL geotransform, and the part of
  an open raster that \<^verbatim>\<open>gdal_bounding_box\<close> reads. The ground-control points have
  an abstract type: they are only handed to \<^verbatim>\<open>gdal.GCPsToGeoTransform\<close>.
\<close>

record geotransform =
  c0 :: real
  c1 :: real
  c2 :: real
  c3 :: real
  c4 :: real
  c5 :: real

record 'g raster =
  GetProjection :: string
  GetGeoTransform :: geotransform
  GetGCPProjection :: string
  GetGCPs :: 'g
  RasterXSize :: int
  RasterYSize :: int

text \<open>
  \<^verbatim>\<open>numpy.amin\<close> and \<^verbatim>\<open>numpy.amax\<close> reduce an array from its first element. The
  arrays here always hold the four corners; the value on the empty list is never used.
\<close>

fun amin :: "real list \<Rightarrow> real" where
  "amin [] = 0"
| "amin (x # xs) = fold min xs x"

fun amax :: "real list \<Rightarrow> real" where
  "amax [] = 0"
| "amax (x # xs) = fold max xs x"

text \<open>
  \<^verbatim>\<open>gdal_bounding_box\<close>. The two library calls are parameters:
  \<open>GCPsToGeoTransform\<close> is \<^verbatim>\<open>gdal.GCPsToGeoTransform\<close> (\<open>None\<close> when no transform
  can be derived), and \<open>reproject wkt outProj\<close> is the pointwise map that
  \<^verbatim>\<open>pyproj.transform(inProj, outProj, arrayX, arrayY)\<close> applies to each corner,
  \<open>inProj\<close> being built from the projection string \<open>wkt\<close>. The result \<open>None\<close> is
  the \<^verbatim>\<open>return None\<close> of the source.
\<close>

definition gdal_bounding_box ::
  "('g \<Rightarrow> geotransform option) \<Rightarrow> (string \<Rightarrow> 'p \<Rightarrow> real \<times> real \<Rightarrow> real \<times> real) \<Rightarrow>
     'g raster \<Rightarrow> 'p option \<Rightarrow> real list option" where
  "gdal_bounding_box GCPsToGeoTransform reproject raster outProj =
     (let (projection, transform) =
            (if GetProjection raster \<noteq> [] then (GetProjection raster, Some (GetGeoTransform raster))
             else (GetGCPProjection raster, GCPsToGeoTransform (GetGCPs raster)))
      in case transform of
           None \<Rightarrow> None
         | Some t \<Rightarrow>
            (let lines = [0, 0, of_int (RasterYSize raster), of_int (RasterYSize raster)];
                 pixels = [0, of_int (RasterXSize raster), of_int (RasterXSize raster), 0];
                 arrayX = map (\<lambda>(p, l). c0 t + p * c1 t + l * c2 t) (zip pixels lines);
                 arrayY = map (\<lambda>(p, l). c3 t + p * c4 t + l * c5 t) (zip pixels lines);
                 pts = (case outProj of
                          None \<Rightarrow> zip arrayX arrayY
                        | Some out \<Rightarrow> map (reproject projection out) (zip arrayX arrayY));
                 minX = amin (map fst pts);
                 minY = amin (map snd pts);
                 maxX = amax (map fst pts);
                 maxY = amax (map snd pts)
             in Some [minX, minY, maxX, maxY]))"

text \<open>
  The four image corners as the specification lists them: pixel coordinates
  \<open>0, w, w, 0\<close> against line coordinates \<open>0, 0, h, h\<close>, pushed through the affine
  geotransform. This definition follows the specification's words; it is compared with
  \<open>gdal_bounding_box\<close> below.
\<close>

definition spec_corners :: "geotransform \<Rightarrow> int \<Rightarrow> int \<Rightarrow> (real \<times> real) list" where
  "spec_corners t w h =
     [(c0 t, c3 t),
      (c0 t + of_int w * c1 t, c3 t + of_int w * c4 t),
      (c0 t + of_int w * c1 t + of_int h * c2 t, c3 t + of_int w * c4 t + of_int h * c5 t),
      (c0 t + of_int h * c2 t, c3 t + of_int h * c5 t)]"

text \<open>
  A north-up raster of 10 by 10 pixels with origin \<open>(0, 0)\<close> and pixel size \<open>(1, -1)\<close>,
  used to run \<open>gdal_bounding_box\<close> on a concrete input.
\<close>

definition example_raster :: "unit raster" where
  "example_raster =
     \<lparr>GetProjection = ''EPSG:32616'',
      GetGeoTransform = \<lparr>c0 = 0, c1 = 1, c2 = 0, c3 = 0, c4 = 0, c5 = -1\<rparr>,
      GetGCPProjection = [], GetGCPs = (), RasterXSize = 10, RasterYSize = 10\<rparr>"

section \<open>Python regular expressions\<close>

text \<open>
  The patterns of the two source files use literals, character classes, \<^verbatim>\<open>.\<close>,
  sequencing, \<^verbatim>\<open>|\<close>, the greedy \<^verbatim>\<open>?\<close>, \<^verbatim>\<open>*\<close>, \<^verbatim>\<open>+\<close> and \<^verbatim>\<open>{n}\<close>, and numbered
  groups. \<open>Chars cs\<close> is a class listing its characters, \<open>NotChars cs\<close> a negated one.
  Strings are byte strings here, so \<^verbatim>\<open>\d\<close> is the ten ASCII digits.
\<close>

datatype regex =
    Eps
  | Chars string
  | NotChars string
  | Seq regex regex
  | Alt regex regex
  | Opt regex
  | Star regex
  | Plus regex
  | Group nat regex

text \<open>
  A matcher state is the input still to be read and the groups captured so far, most
  recent first. \<open>ms r st\<close> lists every way \<open>r\<close> can match at the front of the input, in
  the order a backtracking matcher tries them: the left alternative before the right
  one, one more iteration of a greedy repetition before stopping. The head of the list
  is the match Python's \<^verbatim>\<open>re\<close> module reports. A repetition only goes on after an
  iteration that consumed input, so the length of the input bounds the iterations.
\<close>

type_synonym mstate = "string \<times> (nat \<times> string) list"

fun star :: "(mstate \<Rightarrow> mstate list) \<Rightarrow> nat \<Rightarrow> mstate \<Rightarrow> mstate list" where
  "star f 0 st = [st]"
| "star f (Suc n) st =
     concat (map (star f n) (filter (\<lambda>st'. length (fst st') < length (fst st)) (f st))) @ [st]"

primrec ms :: "regex \<Rightarrow> mstate \<Rightarrow> mstate list" where
  "ms Eps = (\<lambda>st. [st])"
| "ms (Chars cs) = (\<lambda>st. case fst st of [] \<Rightarrow> []
                     | c # s \<Rightarrow> if c \<in> set cs then [(s, snd st)] else [])"
| "ms (NotChars cs) = (\<lambda>st. case fst st of [] \<Rightarrow> []
                     | c # s \<Rightarrow> if c \<notin> set cs then [(s, snd st)] else [])"
| "ms (Seq r1 r2) = (\<lambda>st. concat (map (ms r2) (ms r1 st)))"
| "ms (Alt r1 r2) = (\<lambda>st. ms r1 st @ ms r2 st)"
| "ms (Opt r) = (\<lambda>st. ms r st @ [st])"
| "ms (Star r) = (\<lambda>st. star (ms r) (length (fst st)) st)"
| "ms (Plus r) = (\<lambda>st. concat (map (\<lambda>st'. star (ms r) (length (fst st')) st') (ms r st)))"
| "ms (Group n r) =
     (\<lambda>st. map (\<lambda>st'. (fst st', (n, take (length (fst st) - length (fst st')) (fst st)) # snd st'))
               (ms r st))"

text \<open>
  \<^verbatim>\<open>pattern.match(s)\<close> anchors at the start of \<open>s\<close> and returns the groups of the first
  match; \<^verbatim>\<open>pattern.search(s)\<close> tries every start position from the left and returns
  the matched text, \<^verbatim>\<open>group(0)\<close>; \<^verbatim>\<open>m.group(n)\<close> reads a group that took part
  in the match, as the groups read by the source always do.
\<close>

definition re_match :: "regex \<Rightarrow> string \<Rightarrow> (nat \<times> string) list option" where
  "re_match r s = (case ms r (s, []) of [] \<Rightarrow> None | st # _ \<Rightarrow> Some (snd st))"

fun re_search :: "regex \<Rightarrow> string \<Rightarrow> string option" where
  "re_search r [] = (case ms r ([], []) of [] \<Rightarrow> None | st # _ \<Rightarrow> Some [])"
| "re_search r (c # s) =
     (case ms r (c # s, []) of
        [] \<Rightarrow> re_search r s
      | st # _ \<Rightarrow> Some (take (length (c # s) - length (fst st)) (c # s)))"

definition match_group :: "(nat \<times> string) list \<Rightarrow> nat \<Rightarrow> string" where
  "match_group m n = (case map_of m n of None \<Rightarrow> [] | Some s \<Rightarrow> s)"

definition lit :: "string \<Rightarrow> regex" where
  "lit s = foldr (\<lambda>c r. Seq (Chars [c]) r) s Eps"

fun rep :: "nat \<Rightarrow> regex \<Rightarrow> regex" where
  "rep 0 r = Eps"
| "rep (Suc n) r = Seq r (rep n r)"

definition digit :: regex where
  "digit = Chars ''0123456789''"

definition dot :: regex where
  "dot = NotChars [CHR 0x0A]"

definition nl :: string where
  "nl = [CHR 0x0A]"

section \<open>gdal\_utils.py: reading an offset\<close>

text \<open>
  \<^verbatim>\<open>float(s)\<close> on a decimal literal: surrounding white space is dropped, then a sign,
  digits with an optional fraction (or a fraction alone) and an optional exponent must
  make up the whole string; anything else is a \<open>ValueError\<close>. The value is the exact
  decimal value. The spellings of infinity and NaN and digit-group underscores, which
  Python accepts too, have no real value and are outside this model.
\<close>

definition isspace :: "char \<Rightarrow> bool" where
  "isspace c = (c \<in> set [CHR '' '', CHR 0x09, CHR 0x0A, CHR 0x0B, CHR 0x0C, CHR 0x0D])"

definition strip :: "string \<Rightarrow> string" where
  "strip s = rev (dropWhile isspace (rev (dropWhile isspace s)))"

definition isdigit :: "char \<Rightarrow> bool" where
  "isdigit c = (c \<in> set ''0123456789'')"

definition digit_val :: "char \<Rightarrow> nat" where
  "digit_val c =
     (case map_of (zip ''0123456789'' [0, 1, 2, 3, 4, 5, 6, 7, 8, 9]) c of
        None \<Rightarrow> 0 | Some n \<Rightarrow> n)"

definition digits_val :: "string \<Rightarrow> nat" where
  "digits_val ds = fold (\<lambda>c n. 10 * n + digit_val c) ds 0"

definition split_sign :: "string \<Rightarrow> bool \<times> string" where
  "split_sign s = (case s of [] \<Rightarrow> (False, [])
                   | c # r \<Rightarrow> if c = CHR ''-'' then (True, r)
                              else if c = CHR ''+'' then (False, r) else (False, s))"

definition parse_exponent :: "string \<Rightarrow> int option" where
  "parse_exponent s =
     (case s of [] \<Rightarrow> Some 0
      | c # r \<Rightarrow>
          if c = CHR ''e'' \<or> c = CHR ''E'' then
            (let (neg, ds) = split_sign r
             in if ds \<noteq> [] \<and> list_all isdigit ds
                then Some (if neg then - int (digits_val ds) else int (digits_val ds))
                else None)
          else None)"

definition scale10 :: "real \<Rightarrow> int \<Rightarrow> real" where
  "scale10 x e = (if 0 \<le> e then x * 10 ^ nat e else x / 10 ^ nat (- e))"

definition py_float :: "string \<Rightarrow> error + real" where
  "py_float s0 =
     (let (neg, s1) = split_sign (strip s0);
          ip = takeWhile isdigit s1;
          s2 = dropWhile isdigit s1;
          (fp, s3) = (case s2 of [] \<Rightarrow> ([], [])
                      | c # r \<Rightarrow> if c = CHR ''.'' then (takeWhile isdigit r, dropWhile isdigit r)
                                 else ([], s2))
      in if ip = [] \<and> fp = [] then Inl ValueError
         else case parse_exponent s3 of
                None \<Rightarrow> Inl ValueError
              | Some e \<Rightarrow>
                  (let m = scale10 (real (digits_val (ip @ fp))) (e - int (length fp))
                   in Inr (if neg then - m else m)))"

text \<open>
  The pattern \<^verbatim>\<open>"#. offset: ([-+]?(\d+(\.\d*)?|\.\d+)([eE][-+]?\d+)?)"\<close> with its
  second character replaced by the axis letter, and the pattern \<^verbatim>\<open>reCSString\<close>
  \<^verbatim>\<open>"# coordinate_system: {.* \[[^,]*, [^,]*, ([^,]*), ([^,]*), ([^,]*), .*\].*}\n"\<close>.
\<close>

definition reFloat :: "char \<Rightarrow> regex" where
  "reFloat axis =
     Seq (lit (''#'' @ [axis] @ '' offset: ''))
       (Group 1 (Seq (Opt (Chars ''-+''))
         (Seq (Group 2 (Alt (Seq (Plus digit) (Opt (Group 3 (Seq (Chars ''.'') (Star digit)))))
                            (Seq (Chars ''.'') (Plus digit))))
              (Opt (Group 4 (Seq (Chars ''eE'') (Seq (Opt (Chars ''-+'')) (Plus digit))))))))"

definition reCS :: regex where
  "reCS =
     Seq (lit ''# coordinate_system: {'') (Seq (Star dot) (Seq (lit '' ['')
     (Seq (Star (NotChars '','')) (Seq (lit '', '')
     (Seq (Star (NotChars '','')) (Seq (lit '', '')
     (Seq (Group 1 (Star (NotChars '',''))) (Seq (lit '', '')
     (Seq (Group 2 (Star (NotChars '',''))) (Seq (lit '', '')
     (Seq (Group 3 (Star (NotChars '',''))) (Seq (lit '', '')
     (Seq (Star dot) (Seq (lit '']'')
     (Seq (Star dot) (lit (''}'' @ nl)))))))))))))))))"

text \<open>
  A text file is its content. \<^verbatim>\<open>f.readline()\<close> returns the next line with its
  newline (the rest of the file when there is none, the empty string at the end) and
  moves on; \<open>read_lines n f line\<close> is \<^verbatim>\<open>for i in range(n): line = f.readline()\<close>.
\<close>

definition readline :: "string \<Rightarrow> string \<times> string" where
  "readline f = (case dropWhile (\<lambda>c. c \<noteq> CHR 0x0A) f of
                   [] \<Rightarrow> (f, [])
                 | c # r \<Rightarrow> (takeWhile (\<lambda>c. c \<noteq> CHR 0x0A) f @ [c], r))"

fun read_lines :: "nat \<Rightarrow> string \<Rightarrow> string \<Rightarrow> string" where
  "read_lines 0 f line = line"
| "read_lines (Suc n) f line = (case readline f of (l, f') \<Rightarrow> read_lines n f' l)"

text \<open>
  The first loop of \<^verbatim>\<open>read_offset\<close> over the axes still to do, from index \<open>i\<close>. It
  returns the offsets and the value \<open>i\<close> has when the loop is left: the index of the
  line that did not match, or 2 after three matches.
\<close>

fun offset_loop :: "char list \<Rightarrow> nat \<Rightarrow> string \<Rightarrow> real list \<Rightarrow> error + (real list \<times> nat)" where
  "offset_loop [] i f offset = Inr (offset, i - 1)"
| "offset_loop (axis # axes) i f offset =
     (case readline f of (line, f') \<Rightarrow>
        (case re_match (reFloat axis) line of
           None \<Rightarrow> Inr (offset, i)
         | Some m \<Rightarrow>
            (case py_float (match_group m 1) of
               Inl e \<Rightarrow> Inl e
             | Inr v \<Rightarrow> offset_loop axes (Suc i) f' (offset[i := v]))))"

text \<open>The second loop: \<^verbatim>\<open>offset[i] = float(match.group(1+i))\<close> for \<open>i\<close> in the list.\<close>

fun assign_groups :: "nat list \<Rightarrow> (nat \<times> string) list \<Rightarrow> real list \<Rightarrow> error + real list" where
  "assign_groups [] m offset = Inr offset"
| "assign_groups (i # is) m offset =
     (case py_float (match_group m (1 + i)) of
        Inl e \<Rightarrow> Inl e
      | Inr v \<Rightarrow> assign_groups is m (offset[i := v]))"

text \<open>
  \<^verbatim>\<open>read_offset\<close>. The list the caller passes in is overwritten with \<open>[0, 0, 0]\<close>
  first, so the model returns the list instead of updating it. The file is opened
  twice, each time read from its start.
\<close>

definition read_offset :: "string \<Rightarrow> error + real list" where
  "read_offset file =
     (case offset_loop ''xyz'' 0 file [0, 0, 0] of
        Inl e \<Rightarrow> Inl e
      | Inr (offset, i) \<Rightarrow>
          if i = 0 then
            (let line = read_lines 8 file [] in
             case re_match reCS line of
               None \<Rightarrow> Inr offset
             | Some m \<Rightarrow> assign_groups [0, 1, 2] m offset)
          else Inr offset)"

text \<open>Three headers to run \<open>read_offset\<close> on.\<close>

definition header_offsets :: string where
  "header_offsets =
     ''#x offset: 747594.676221'' @ nl @ ''#y offset: 4407371.835686'' @ nl @
     ''#z offset: 225.038274'' @ nl"

definition header_spaced :: string where
  "header_spaced =
     ''# x offset: 747594.676221'' @ nl @ ''# y offset: 4407371.835686'' @ nl @
     ''# z offset: 225.038274'' @ nl"

definition header_cs :: string where
  "header_cs =
     ''ply'' @ nl @ ''format ascii 1.0'' @ nl @ ''element vertex 0'' @ nl @
     ''property float x'' @ nl @ ''property float y'' @ nl @ ''property float z'' @ nl @
     ''end_header'' @ nl @
     ''# coordinate_system: {\"parameters\": [\"wgs84\", \"UTM zone 16N\", 747594.6762214857, 4407371.835685772, 225.03827424185408, 0, 0, 0, 0, 0], \"type\": \"EPSG\"}'' @ nl"

definition header_xy :: string where
  "header_xy = ''#x offset: 1.5'' @ nl @ ''#y offset: -2e1'' @ nl @ ''z'' @ nl"

definition header_x :: string where
  "header_x = ''#x offset: 1.5'' @ nl @ ''# y'' @ nl"

section \<open>run\_danesfield.py: working directory and modalities\<close>

text \<open>
  Python's \<^verbatim>\<open>a in b\<close> on strings is \<open>sublist a b\<close>: \<open>a\<close> occurs in \<open>b\<close> as a contiguous
  piece.

  \<^verbatim>\<open>create_working_dir\<close>. The surroundings are parameters: \<open>now\<close> is
  \<^verbatim>\<open>str(datetime.datetime.now().timestamp())\<close>, \<open>isdir\<close> is \<^verbatim>\<open>os.path.isdir\<close> and
  \<open>realpath\<close> is \<^verbatim>\<open>os.path.realpath\<close>. The configured directory is \<open>None\<close> when the
  option is absent. The result is the working directory and the directories made by
  \<^verbatim>\<open>os.mkdir\<close>; \<open>WorkingDirConflict\<close> is the \<^verbatim>\<open>ValueError\<close> of the source.
\<close>

definition create_working_dir ::
  "string \<Rightarrow> (string \<Rightarrow> bool) \<Rightarrow> (string \<Rightarrow> string) \<Rightarrow> string option \<Rightarrow> string \<Rightarrow>
     error + (string \<times> string list)" where
  "create_working_dir now isdir realpath working_dir0 imagery_dir =
     (let working_dir =
            (case working_dir0 of
               None \<Rightarrow> ''danesfield-'' @ takeWhile (\<lambda>c. c \<noteq> CHR ''.'') now
             | Some w \<Rightarrow> if w = [] then ''danesfield-'' @ takeWhile (\<lambda>c. c \<noteq> CHR ''.'') now
                         else w);
          made = (if \<not> isdir working_dir then [working_dir] else [])
      in if sublist (realpath imagery_dir) (realpath working_dir)
         then Inl WorkingDirConflict
         else Inr (working_dir, made))"

text \<open>
  A Python dictionary is an association list in insertion order: \<open>map_of d k\<close> looks a
  key up, \<open>AList.update k v d\<close> is \<^verbatim>\<open>d[k] = v\<close> (in place for a key that is there, at
  the end for a new one) and \<open>AList.delete k d\<close> is \<^verbatim>\<open>del d[k]\<close>.

  A modality dictionary maps \<^verbatim>\<open>'image'\<close>, \<^verbatim>\<open>'rpc'\<close>, \<^verbatim>\<open>'info'\<close> and later
  \<^verbatim>\<open>'ortho_img_fpath'\<close> to paths; a collection is the dictionary \<^verbatim>\<open>main\<close> creates
  for each prefix.
\<close>

type_synonym modality = "(string \<times> string) list"

record collection =
  pan :: modality
  pansharpened_fpath :: string
  rgb_fpath :: string
  msi :: modality
  swir :: modality
  angle :: int

definition ensure_complete_modality :: "modality \<Rightarrow> bool \<Rightarrow> bool" where
  "ensure_complete_modality modality_dict require_rpc =
     (let keys = [''image'', ''info''] @ (if require_rpc then [''rpc''] else [])
      in list_all (\<lambda>key. key \<in> set (map fst modality_dict)) keys)"

text \<open>
  \<^verbatim>\<open>classify_fpaths\<close>: the body of its loop for one path, then the loop. The entry
  \<^verbatim>\<open>id_to_files[prefix]\<close>, which \<^verbatim>\<open>main\<close> creates just before the calls, is passed
  and returned instead of the whole dictionary.
\<close>

definition classify_fpath :: "string \<Rightarrow> string \<Rightarrow> string \<Rightarrow> collection \<Rightarrow> collection" where
  "classify_fpath pre file_type fpath entry =
     (if sublist pre fpath then
        if sublist ''-P1BS-'' fpath then entry\<lparr>pan := AList.update file_type fpath (pan entry)\<rparr>
        else if sublist ''-M1BS-'' fpath then entry\<lparr>msi := AList.update file_type fpath (msi entry)\<rparr>
        else if sublist ''-A1BS-'' fpath then entry\<lparr>swir := AList.update file_type fpath (swir entry)\<rparr>
        else entry
      else entry)"

definition classify_fpaths :: "string \<Rightarrow> string list \<Rightarrow> collection \<Rightarrow> string \<Rightarrow> collection" where
  "classify_fpaths pre fpaths entry file_type = fold (classify_fpath pre file_type) fpaths entry"

section \<open>run\_danesfield.py: finding and grouping the files\<close>

text \<open>
  \<^verbatim>\<open>os.walk\<close> yields triples of a directory, its subdirectories and its files; the
  list of triples is a parameter. \<open>walk_fpaths walk ext\<close> collects
  \<^verbatim>\<open>os.path.join(root, file)\<close> for the files whose lower-cased name ends with \<open>ext\<close>.
\<close>

definition lower_char :: "char \<Rightarrow> char" where
  "lower_char c =
     (case map_of (zip ''ABCDEFGHIJKLMNOPQRSTUVWXYZ'' ''abcdefghijklmnopqrstuvwxyz'') c of
        None \<Rightarrow> c | Some d \<Rightarrow> d)"

definition lower :: "string \<Rightarrow> string" where
  "lower s = map lower_char s"

definition endswith :: "string \<Rightarrow> string \<Rightarrow> bool" where
  "endswith s suf = suffix suf s"

definition path_join :: "string \<Rightarrow> string \<Rightarrow> string" where
  "path_join a b =
     (if b \<noteq> [] \<and> hd b = CHR ''/'' then b
      else if a = [] \<or> last a = CHR ''/'' then a @ b
      else a @ ''/'' @ b)"

definition walk_fpaths :: "(string \<times> string list \<times> string list) list \<Rightarrow> string \<Rightarrow> string list" where
  "walk_fpaths walk ext =
     concat (map (\<lambda>(root, dirs, files).
                    map (path_join root) (filter (\<lambda>file. endswith (lower file) ext) files)) walk)"

text \<open>
  The pattern \<^verbatim>\<open>'[0-9]{2}[A-Z]{3}[0-9]{8}-'\<close>, and the prefixes the loop over
  \<^verbatim>\<open>ntf_fpaths\<close> adds to the set, in the order it finds them:
  \<^verbatim>\<open>prefix.group(0).rstrip('-')\<close> for each path where the search succeeds.
\<close>

definition upper_letter :: regex where
  "upper_letter = Chars ''ABCDEFGHIJKLMNOPQRSTUVWXYZ''"

definition prefix_regex :: regex where
  "prefix_regex = Seq (rep 2 digit) (Seq (rep 3 upper_letter) (Seq (rep 8 digit) (Chars ''-'')))"

definition rstrip :: "char \<Rightarrow> string \<Rightarrow> string" where
  "rstrip c s = rev (dropWhile (\<lambda>d. d = c) (rev s))"

definition find_prefixes :: "string list \<Rightarrow> string list" where
  "find_prefixes ntf_fpaths =
     List.map_filter (\<lambda>ntf_fpath. map_option (rstrip CHR ''-'') (re_search prefix_regex ntf_fpath))
       ntf_fpaths"

text \<open>
  The grouping loop of \<^verbatim>\<open>main\<close>. Its state is the dictionary
  \<^verbatim>\<open>collection_id_to_files\<close>, the list \<^verbatim>\<open>incomplete_ids\<close> and the warnings logged.
  \<open>prefix_list\<close> is \<^verbatim>\<open>list(prefixes)\<close>, the found prefixes without repetition in the
  order the set happens to give them.
\<close>

definition new_collection :: collection where
  "new_collection =
     \<lparr>pan = [], pansharpened_fpath = [], rgb_fpath = [], msi = [], swir = [], angle = -1\<rparr>"

definition classify_all :: "string list \<Rightarrow> string list \<Rightarrow> string list \<Rightarrow> string \<Rightarrow> collection" where
  "classify_all ntf_fpaths rpc_fpaths info_fpaths pre =
     classify_fpaths pre info_fpaths
       (classify_fpaths pre rpc_fpaths
          (classify_fpaths pre ntf_fpaths new_collection ''image'') ''rpc'') ''info''"

definition collection_complete :: "collection \<Rightarrow> bool" where
  "collection_complete entry =
     (ensure_complete_modality (pan entry) True \<and> ensure_complete_modality (msi entry) True)"

definition skip_warning :: "string \<Rightarrow> string" where
  "skip_warning pre =
     ''Don'' @ [CHR 0x27] @ ''t have complete modality for collection ID: '' @ [CHR 0x27] @
     pre @ [CHR 0x27] @ '', skipping!''"

definition group_step ::
  "string list \<Rightarrow> string list \<Rightarrow> string list \<Rightarrow> string \<Rightarrow>
     (string \<times> collection) list \<times> string list \<times> string list \<Rightarrow>
     (string \<times> collection) list \<times> string list \<times> string list" where
  "group_step ntf_fpaths rpc_fpaths info_fpaths pre state =
     (case state of (collection_id_to_files, incomplete_ids, warnings) \<Rightarrow>
        (let d1 = AList.update pre new_collection collection_id_to_files;
             entry = classify_all ntf_fpaths rpc_fpaths info_fpaths pre;
             d2 = AList.update pre entry d1;
             complete = collection_complete entry
         in if \<not> complete
            then (AList.delete pre d2, incomplete_ids @ [pre],
                  warnings @ [skip_warning pre])
            else (d2, incomplete_ids, warnings)))"

definition group_collections ::
  "string list \<Rightarrow> string list \<Rightarrow> string list \<Rightarrow> string list \<Rightarrow>
     (string \<times> collection) list \<times> string list \<times> string list" where
  "group_collections prefix_list ntf_fpaths rpc_fpaths info_fpaths =
     fold (group_step ntf_fpaths rpc_fpaths info_fpaths) prefix_list ([], [], [])"

section \<open>run\_danesfield.py: the stages up to the choice of the most nadir image\<close>

text \<open>
  The tools \<^verbatim>\<open>main\<close> calls are external. Each is a function from the argument list
  to whether the call returns (\<open>False\<close>: an exception escapes from it, which ends the
  run). \<open>obliquity_angle\<close> is the read
  \<^verbatim>\<open>float(gdal.Open(path).GetMetadata()['NITF_CSEXRA_OBLIQUITY_ANGLE'])\<close>, a finite
  number or an error. An event records a call with its arguments.
\<close>

record tools =
  generate_dsm :: "string list \<Rightarrow> bool"
  fit_dtm :: "string list \<Rightarrow> bool"
  orthorectify :: "string list \<Rightarrow> bool"
  gdal_pansharpen :: "string list \<Rightarrow> bool"
  obliquity_angle :: "string \<Rightarrow> error + real"
  msi_to_rgb :: "string list \<Rightarrow> bool"

datatype event = Call string "string list"

text \<open>
  \<^verbatim>\<open>os.path.split(p)[1]\<close> is what follows the last slash, and
  \<^verbatim>\<open>os.path.splitext(name)[0]\<close> drops the extension: the part from the last dot on,
  when something other than dots stands before it.
\<close>

definition basename :: "string \<Rightarrow> string" where
  "basename p = rev (takeWhile (\<lambda>c. c \<noteq> CHR ''/'') (rev p))"

definition splitext_root :: "string \<Rightarrow> string" where
  "splitext_root name =
     (case dropWhile (\<lambda>c. c \<noteq> CHR ''.'') (rev name) of
        [] \<Rightarrow> name
      | d # root_rev \<Rightarrow> if list_ex (\<lambda>c. c \<noteq> CHR ''.'') root_rev then rev root_rev else name)"

text \<open>
  One block of the orthorectification loop, for the modality dictionary \<open>m\<close>
  (\<^verbatim>\<open>files['pan']\<close>, then \<^verbatim>\<open>files['msi']\<close>): the image is looked up, the tool is
  called, and the output path is stored under \<^verbatim>\<open>'ortho_img_fpath'\<close>.
\<close>

definition orthorectify_image ::
  "tools \<Rightarrow> string \<Rightarrow> string \<Rightarrow> string \<Rightarrow> modality \<Rightarrow> event list \<Rightarrow>
     event list \<times> (error + modality)" where
  "orthorectify_image t working_dir dsm_file dtm_file m tr =
     (case map_of m ''image'' of
        None \<Rightarrow> (tr, Inl (KeyError ''image''))
      | Some ntf_fpath \<Rightarrow>
          (let fname = splitext_root (basename ntf_fpath);
               ortho_img_fpath = path_join working_dir (fname @ ''_ortho.tif'');
               cmd_args = [ntf_fpath, dsm_file, ortho_img_fpath, ''--dtm'', dtm_file] @
                 (case map_of m ''rpc'' of
                    None \<Rightarrow> []
                  | Some rpc_fpath \<Rightarrow>
                      if rpc_fpath \<noteq> [] then [''--raytheon-rpc'', rpc_fpath] else []);
               tr' = tr @ [Call ''orthorectify'' cmd_args]
           in if orthorectify t cmd_args
              then (tr', Inr (AList.update ''ortho_img_fpath'' ortho_img_fpath m))
              else (tr', Inl (StageFailure ''orthorectify''))))"

fun orthorectify_loop ::
  "tools \<Rightarrow> string \<Rightarrow> string \<Rightarrow> string \<Rightarrow> (string \<times> collection) list \<Rightarrow> event list \<Rightarrow>
     event list \<times> (error + (string \<times> collection) list)" where
  "orthorectify_loop t working_dir dsm_file dtm_file [] tr = (tr, Inr [])"
| "orthorectify_loop t working_dir dsm_file dtm_file ((collection_id, files) # rest) tr =
     (case orthorectify_image t working_dir dsm_file dtm_file (pan files) tr of
        (tr1, Inl e) \<Rightarrow> (tr1, Inl e)
      | (tr1, Inr pan') \<Rightarrow>
          (case orthorectify_image t working_dir dsm_file dtm_file (msi files) tr1 of
             (tr2, Inl e) \<Rightarrow> (tr2, Inl e)
           | (tr2, Inr msi') \<Rightarrow>
               (case orthorectify_loop t working_dir dsm_file dtm_file rest tr2 of
                  (tr3, Inl e) \<Rightarrow> (tr3, Inl e)
                | (tr3, Inr rest') \<Rightarrow>
                    (tr3, Inr ((collection_id, files\<lparr>pan := pan', msi := msi'\<rparr>) # rest')))))"

text \<open>
  The choice of the most nadir collection. \<^verbatim>\<open>lowest_angle\<close> starts as
  \<^verbatim>\<open>float('inf')\<close>, here \<open>None\<close>, below which every angle lies.
  \<open>nadir_update\<close> is the \<^verbatim>\<open>if angle < lowest_angle\<close> statement.
\<close>

definition nadir_update :: "real \<Rightarrow> string \<Rightarrow> real option \<times> string \<Rightarrow> real option \<times> string" where
  "nadir_update obliquity collection_id state =
     (case state of (lowest_angle, most_nadir_collection_id) \<Rightarrow>
        if (case lowest_angle of None \<Rightarrow> True | Some l \<Rightarrow> obliquity < l)
        then (Some obliquity, collection_id)
        else (lowest_angle, most_nadir_collection_id))"

fun pansharpen_loop ::
  "tools \<Rightarrow> string \<Rightarrow> (string \<times> collection) list \<Rightarrow> real option \<times> string \<Rightarrow> event list \<Rightarrow>
     event list \<times> (error + ((string \<times> collection) list \<times> real option \<times> string))" where
  "pansharpen_loop t working_dir [] state tr = (tr, Inr ([], state))"
| "pansharpen_loop t working_dir ((collection_id, files) # rest) state tr =
     (case map_of (pan files) ''ortho_img_fpath'' of
        None \<Rightarrow> (tr, Inl (KeyError ''ortho_img_fpath''))
      | Some ortho_pan_fpath \<Rightarrow>
     (case map_of (msi files) ''ortho_img_fpath'' of
        None \<Rightarrow> (tr, Inl (KeyError ''ortho_img_fpath''))
      | Some ortho_msi_fpath \<Rightarrow>
          (let pansharpened_output_image =
                 path_join working_dir (collection_id @ ''_ortho_pansharpened.tif'');
               cmd_args = [''gdal_pansharpen.py'', ortho_pan_fpath, ortho_msi_fpath,
                           pansharpened_output_image];
               tr1 = tr @ [Call ''gdal_pansharpen.py'' cmd_args]
           in if \<not> gdal_pansharpen t cmd_args
              then (tr1, Inl (StageFailure ''gdal_pansharpen.py''))
              else
                (case map_of (pan files) ''image'' of
                   None \<Rightarrow> (tr1, Inl (KeyError ''image''))
                 | Some image_fpath \<Rightarrow>
                     (case obliquity_angle t image_fpath of
                        Inl e \<Rightarrow> (tr1, Inl e)
                      | Inr obliquity \<Rightarrow>
                          (case pansharpen_loop t working_dir rest
                                  (nadir_update obliquity collection_id state) tr1 of
                             (tr2, Inl e) \<Rightarrow> (tr2, Inl e)
                           | (tr2, Inr (rest', state')) \<Rightarrow>
                               (tr2, Inr ((collection_id,
                                     files\<lparr>pansharpened_fpath := pansharpened_output_image\<rparr>)
                                     # rest', state'))))))))"

fun rgb_loop ::
  "tools \<Rightarrow> string \<Rightarrow> (string \<times> collection) list \<Rightarrow> event list \<Rightarrow>
     event list \<times> (error + (string \<times> collection) list)" where
  "rgb_loop t working_dir [] tr = (tr, Inr [])"
| "rgb_loop t working_dir ((collection_id, files) # rest) tr =
     (let rgb_image_fpath = path_join working_dir (collection_id @ ''_rgb_byte_image.tif'');
          msi_image_fpath = pansharpened_fpath files;
          cmd_args = [msi_image_fpath, rgb_image_fpath, ''-b''];
          tr1 = tr @ [Call ''msi_to_rgb'' cmd_args]
      in if \<not> msi_to_rgb t cmd_args then (tr1, Inl (StageFailure ''msi_to_rgb''))
         else (case rgb_loop t working_dir rest tr1 of
                 (tr2, Inl e) \<Rightarrow> (tr2, Inl e)
               | (tr2, Inr rest') \<Rightarrow>
                   (tr2, Inr ((collection_id, files\<lparr>rgb_fpath := rgb_image_fpath\<rparr>) # rest'))))"

text \<open>
  \<^verbatim>\<open>main\<close> from the rendering of the DSM to the lookup of the most nadir
  collection, on the dictionary the grouping loop left. \<open>aoi_bounds\<close> and \<open>gsd\<close> are the
  strings \<^verbatim>\<open>str\<close> gives for the bounds and the ground sample distance. The result
  is the list of calls made, and either the error that ended the run or the dictionary,
  \<^verbatim>\<open>most_nadir_collection_id\<close> and \<^verbatim>\<open>most_nadir_pan_fpath\<close>. Logging at the levels
  info and debug is left out.
\<close>

definition main_pipeline ::
  "tools \<Rightarrow> string \<Rightarrow> string \<Rightarrow> string list \<Rightarrow> string \<Rightarrow> string \<Rightarrow>
     (string \<times> collection) list \<Rightarrow>
     event list \<times> (error + ((string \<times> collection) list \<times> string \<times> string))" where
  "main_pipeline t working_dir aoi_name aoi_bounds gsd p3d_file collection_id_to_files =
     (let dsm_file = path_join working_dir (aoi_name @ ''_P3D_DSM.tif'');
          dsm_args = [dsm_file, ''-s'', p3d_file, ''--bounds''] @ aoi_bounds @ [''--gsd'', gsd];
          tr1 = [Call ''generate_dsm'' dsm_args]
      in if \<not> generate_dsm t dsm_args then (tr1, Inl (StageFailure ''generate_dsm''))
         else
          (let dtm_file = path_join working_dir (aoi_name @ ''_DTM.tif'');
               dtm_args = [dsm_file, dtm_file];
               tr2 = tr1 @ [Call ''fit_dtm'' dtm_args]
           in if \<not> fit_dtm t dtm_args then (tr2, Inl (StageFailure ''fit_dtm''))
              else
               (case orthorectify_loop t working_dir dsm_file dtm_file collection_id_to_files tr2 of
                  (tr3, Inl e) \<Rightarrow> (tr3, Inl e)
                | (tr3, Inr d3) \<Rightarrow>
                   (case pansharpen_loop t working_dir d3 (None, []) tr3 of
                      (tr4, Inl e) \<Rightarrow> (tr4, Inl e)
                    | (tr4, Inr (d4, lowest_angle, most_nadir_collection_id)) \<Rightarrow>
                       (case rgb_loop t working_dir d4 tr4 of
                          (tr5, Inl e) \<Rightarrow> (tr5, Inl e)
                        | (tr5, Inr d5) \<Rightarrow>
                           (case map_of d5 most_nadir_collection_id of
                              None \<Rightarrow> (tr5, Inl (KeyError most_nadir_collection_id))
                            | Some files \<Rightarrow>
                                (tr5, Inr (d5, most_nadir_collection_id,
                                           pansharpened_fpath files))))))))"

text \<open>
  The grouping loop followed by the stages: the warnings of the grouping, the calls,
  and the outcome.
\<close>

definition main_from_files ::
  "tools \<Rightarrow> string \<Rightarrow> string \<Rightarrow> string list \<Rightarrow> string \<Rightarrow> string \<Rightarrow>
     string list \<Rightarrow> string list \<Rightarrow> string list \<Rightarrow> string list \<Rightarrow>
     string list \<times> event list \<times> (error + ((string \<times> collection) list \<times> string \<times> string))" where
  "main_from_files t working_dir aoi_name aoi_bounds gsd p3d_file
       prefix_list ntf_fpaths rpc_fpaths info_fpaths =
     (case group_collections prefix_list ntf_fpaths rpc_fpaths info_fpaths of
        (collection_id_to_files, incomplete_ids, warnings) \<Rightarrow>
          (case main_pipeline t working_dir aoi_name aoi_bounds gsd p3d_file
                  collection_id_to_files of
             (tr, r) \<Rightarrow> (warnings, tr, r)))"

section \<open>Notions used to state the properties\<close>

text \<open>
  Completeness as the specification words it: a modality is complete iff its image and
  info files are present and its rpc file is present when required; a collection is
  kept iff \<open>pan\<close> and \<open>msi\<close> are complete with the rpc file required. These two
  definitions follow the specification; they are compared with
  \<open>ensure_complete_modality\<close> and the grouping loop below.
\<close>

definition spec_modality_complete :: "modality \<Rightarrow> bool \<Rightarrow> bool" where
  "spec_modality_complete m rpc_required \<longleftrightarrow>
     map_of m ''image'' \<noteq> None \<and> map_of m ''info'' \<noteq> None
     \<and> (rpc_required \<longrightarrow> map_of m ''rpc'' \<noteq> None)"

definition spec_complete :: "collection \<Rightarrow> bool" where
  "spec_complete entry \<longleftrightarrow>
     spec_modality_complete (pan entry) True \<and> spec_modality_complete (msi entry) True"

text \<open>The last element of a list that satisfies a condition, if there is one.\<close>

definition last_matching :: "('a \<Rightarrow> bool) \<Rightarrow> 'a list \<Rightarrow> 'a option" where
  "last_matching G xs = (case filter G xs of [] \<Rightarrow> None | y # ys \<Rightarrow> Some (last (y # ys)))"

text \<open>
  \<open>has_shape css s\<close>: the string \<open>s\<close> starts with one character from each of the
  classes \<open>css\<close>, in order. \<open>id_shape\<close> is two digits, three upper-case letters and eight
  digits. \<open>fixed_shape r css\<close> says that the pattern \<open>r\<close> matches exactly such a start.
\<close>

definition has_shape :: "string list \<Rightarrow> string \<Rightarrow> bool" where
  "has_shape css s \<longleftrightarrow>
     length css \<le> length s \<and> list_all2 (\<lambda>cs c. c \<in> set cs) css (take (length css) s)"

definition id_shape :: "string list" where
  "id_shape = replicate 2 ''0123456789'' @ replicate 3 ''ABCDEFGHIJKLMNOPQRSTUVWXYZ'' @
              replicate 8 ''0123456789''"

definition fixed_shape :: "regex \<Rightarrow> string list \<Rightarrow> bool" where
  "fixed_shape r css \<longleftrightarrow>
     (\<forall>s g. ms r (s, g) = (if has_shape css s then [(drop (length css) s, g)] else []))"

text \<open>Files to run the grouping on: two collections, the second without its msi archive.\<close>

definition example_ntf :: "string list" where
  "example_ntf =
     [''/img/15FEB15142542-P1BS-a.ntf'', ''/img/15FEB15142542-M1BS-a.ntf'',
      ''/img/16MAR16101010-P1BS-b.NTF'', ''/img/16MAR16101010-M1BS-b.ntf'']"

definition example_info :: "string list" where
  "example_info =
     [''/img/15FEB15142542-P1BS-a.tar'', ''/img/15FEB15142542-M1BS-a.tar'',
      ''/img/16MAR16101010-P1BS-b.tar'']"

definition example_rpc :: "string list" where
  "example_rpc =
     [''/rpc/15FEB15142542-P1BS-a.rpc'', ''/rpc/15FEB15142542-M1BS-a.rpc'',
      ''/rpc/16MAR16101010-P1BS-b.rpc'', ''/rpc/16MAR16101010-M1BS-b.rpc'']"

definition example_walk :: "(string \<times> string list \<times> string list) list" where
  "example_walk =
     [(''/img'', [], [''15FEB15142542-P1BS-a.ntf'', ''15FEB15142542-P1BS-a.tar'',
                     ''15FEB15142542-M1BS-a.ntf'', ''15FEB15142542-M1BS-a.tar'',
                     ''16MAR16101010-P1BS-b.NTF'', ''16MAR16101010-P1BS-b.tar'',
                     ''16MAR16101010-M1BS-b.ntf'', ''readme.txt''])]"

text \<open>
  \<open>reads_angle t item a\<close>: the obliquity angle read for the panchromatic image of the
  collection \<open>item\<close> is \<open>a\<close>.
\<close>

definition reads_angle :: "tools \<Rightarrow> string \<times> collection \<Rightarrow> real \<Rightarrow> bool" where
  "reads_angle t item a \<longleftrightarrow>
     (\<exists>image_fpath. map_of (pan (snd item)) ''image'' = Some image_fpath
                    \<and> obliquity_angle t image_fpath = Inr a)"

text \<open>
  Tools that always return, with an obliquity angle of 20 for the images of February
  and 12.5 for all others, and three orthorectified collections to choose from.
\<close>

definition example_tools :: tools where
  "example_tools =
     \<lparr>generate_dsm = (\<lambda>args. True), fit_dtm = (\<lambda>args. True), orthorectify = (\<lambda>args. True),
      gdal_pansharpen = (\<lambda>args. True),
      obliquity_angle = (\<lambda>path. if sublist ''15FEB'' path then Inr 20 else Inr 12.5),
      msi_to_rgb = (\<lambda>args. True)\<rparr>"

definition example_item :: "string \<Rightarrow> string \<times> collection" where
  "example_item cid =
     (cid, \<lparr>pan = [(''image'', ''/img/'' @ cid @ ''-P1BS-a.ntf''),
                   (''ortho_img_fpath'', ''/work/'' @ cid @ ''-P1BS-a_ortho.tif'')],
            pansharpened_fpath = [], rgb_fpath = [],
            msi = [(''image'', ''/img/'' @ cid @ ''-M1BS-a.ntf''),
                   (''ortho_img_fpath'', ''/work/'' @ cid @ ''-M1BS-a_ortho.tif'')],
            swir = [], angle = -1\<rparr>)"

definition example_items :: "(string \<times> collection) list" where
  "example_items =
     [example_item ''15FEB15142542'', example_item ''16MAR16101010'',
      example_item ''17APR17111111'']"

text \<open>
  \<open>tools_succeed t\<close>: every call of an external tool returns and every image has an
  obliquity angle.
\<close>

definition tools_succeed :: "tools \<Rightarrow> bool" where
  "tools_succeed t \<longleftrightarrow>
     (\<forall>args. generate_dsm t args \<and> fit_dtm t args \<and> orthorectify t args
             \<and> gdal_pansharpen t args \<and> msi_to_rgb t args)
     \<and> (\<forall>path. \<exists>a. obliquity_angle t path = Inr a)"

text \<open>
  What the loops need of a collection: \<open>ready1\<close>, both images, before
  orthorectification; \<open>ready2\<close>, both orthorectified paths and the panchromatic image,
  before pansharpening.
\<close>

definition ready1 :: "collection \<Rightarrow> bool" where
  "ready1 files \<longleftrightarrow> map_of (pan files) ''image'' \<noteq> None \<and> map_of (msi files) ''image'' \<noteq> None"

definition ready2 :: "collection \<Rightarrow> bool" where
  "ready2 files \<longleftrightarrow> map_of (pan files) ''ortho_img_fpath'' \<noteq> None
     \<and> map_of (msi files) ''ortho_img_fpath'' \<noteq> None \<and> map_of (pan files) ''image'' \<noteq> None"

text \<open>
  Files of a single collection whose msi image has no info archive: every prefix found
  in them is incomplete.
\<close>

definition lone_ntf :: "string list" where
  "lone_ntf = [''/img/16MAR16101010-P1BS-b.NTF'', ''/img/16MAR16101010-M1BS-b.ntf'']"

definition lone_info :: "string list" where
  "lone_info = [''/img/16MAR16101010-P1BS-b.tar'']"

definition lone_rpc :: "string list" where
  "lone_rpc = [''/rpc/16MAR16101010-P1BS-b.rpc'', ''/rpc/16MAR16101010-M1BS-b.rpc'']"

section \<open>Properties of the UTM zone computation\<close>

lemma py_int_nonneg: "0 \<le> x \<Longrightarrow> py_int x = \<lfloor>x\<rfloor>"
  by (simp add: py_int_def)


lemma fmod_nonneg:
  assumes "0 \<le> x" "0 < y"
  shows "0 \<le> fmod x y" "fmod x y < y"
proof -
  have q: "0 \<le> x / y" using assms by simp
  have f: "fmod x y = x - y * of_int \<lfloor>x / y\<rfloor>"
    using q by (simp add: fmod_def py_int_def)
  have a: "of_int \<lfloor>x / y\<rfloor> \<le> x / y" by (rule of_int_floor_le)
  have b: "x / y < of_int \<lfloor>x / y\<rfloor> + 1" by linarith
  have "y * of_int \<lfloor>x / y\<rfloor> \<le> x"
    using mult_left_mono[OF a, of y] assms by simp
  then show "0 \<le> fmod x y" by (simp add: f)
  have "x < y * (of_int \<lfloor>x / y\<rfloor> + 1)"
    using mult_strict_left_mono[OF b, of y] assms by simp
  then show "fmod x y < y" by (simp add: f algebra_simps)
qed

lemma fmod_id: "0 \<le> x \<Longrightarrow> x < y \<Longrightarrow> fmod x y = x"
proof -
  assume a: "0 \<le> x" "x < y"
  then have "0 \<le> x / y" "x / y < 1" by simp_all
  then have "\<lfloor>x / y\<rfloor> = 0" by (simp add: floor_eq_iff)
  then show ?thesis using \<open>0 \<le> x / y\<close> by (simp add: fmod_def py_int_def)
qed

lemma norm_lon_range: "-180 \<le> lon \<Longrightarrow> -180 \<le> norm_lon lon \<and> norm_lon lon < 180"
  using fmod_nonneg[of "lon + 180" 360] by (simp add: norm_lon_def)

lemma norm_lat_range: "-90 \<le> lat \<Longrightarrow> -90 \<le> norm_lat lat \<and> norm_lat lat < 90"
  using fmod_nonneg[of "lat + 90" 180] by (simp add: norm_lat_def)

lemma norm_lon_cong: "lon = norm_lon lon + 360 * of_int (py_int ((lon + 180) / 360))"
  by (simp add: norm_lon_def fmod_def)

lemma norm_lat_cong: "lat = norm_lat lat + 180 * of_int (py_int ((lat + 90) / 180))"
  by (simp add: norm_lat_def fmod_def)


lemma norm_lat_id: "-90 \<le> lat \<Longrightarrow> lat < 90 \<Longrightarrow> norm_lat lat = lat"
  using fmod_id[of "lat + 90" 180] by (simp add: norm_lat_def)

lemma py_int_bounds: "of_int a \<le> x \<Longrightarrow> x < of_int b + 1 \<Longrightarrow> a \<le> 0 \<Longrightarrow> 0 \<le> b \<Longrightarrow> a \<le> py_int x \<and> py_int x \<le> b"
  unfolding py_int_def by (auto simp: le_floor_iff floor_le_iff ceiling_le_iff le_ceiling_iff)

lemma general_zone_range:
  assumes "-180 \<le> lon" "lon < 180"
  shows "1 \<le> py_int (of_int (py_int lon + 180) / 6 + 1) \<and> py_int (of_int (py_int lon + 180) / 6 + 1) \<le> 60"
proof -
  have k: "-180 \<le> py_int lon \<and> py_int lon \<le> 179"
    using py_int_bounds[of "-180" lon 179] assms by simp
  define m where "m = py_int lon + 180"
  have m: "0 \<le> m" "m \<le> 359" using k by (simp_all add: m_def)
  have nn: "0 \<le> (of_int m :: real) / 6 + 1" using m by simp
  have "py_int (of_int m / 6 + 1) = \<lfloor>(of_int m :: real) / 6 + 1\<rfloor>"
    using nn by (simp add: py_int_def)
  also have "\<dots> = m div 6 + 1"
    using floor_divide_of_int_eq[of m 6, where ?'a = real] by simp
  finally have "py_int (of_int m / 6 + 1) = m div 6 + 1" .
  moreover have "0 \<le> m div 6" "m div 6 \<le> 59" using m by auto
  ultimately show ?thesis unfolding m_def by simp
qed





text \<open>
  Claim C2, as the code has it. For a longitude from -180 on and a latitude from -90 on,
  the normalised longitude lies in \<open>[-180, 180)\<close> and differs from the input by a
  multiple of 360, the normalised latitude lies in \<open>[-90, 90)\<close> and differs from the input
  by a multiple of 180; when the normalised latitude is between -80 and 84 (both
  included) the result is a zone between 1 and 60 with hemisphere \<open>N\<close> exactly when that
  latitude is positive, and otherwise the call fails with \<open>InvalidUTM\<close>.
\<close>

theorem compute_utm_zone_valid_band:
  assumes "-180 \<le> lon" "-90 \<le> lat"
  shows "-180 \<le> norm_lon lon \<and> norm_lon lon < 180
       \<and> (\<exists>k::int. lon = norm_lon lon + 360 * of_int k)
       \<and> -90 \<le> norm_lat lat \<and> norm_lat lat < 90
       \<and> (\<exists>k::int. lat = norm_lat lat + 180 * of_int k)
       \<and> (-80 \<le> norm_lat lat \<and> norm_lat lat \<le> 84 \<longrightarrow>
            (\<exists>z. compute_utm_zone lon lat = Inr (z, if norm_lat lat > 0 then N else S)
                 \<and> 1 \<le> z \<and> z \<le> 60))
       \<and> (\<not> (-80 \<le> norm_lat lat \<and> norm_lat lat \<le> 84) \<longrightarrow>
            compute_utm_zone lon lat = Inl InvalidUTM)"
proof -
  have lon: "-180 \<le> norm_lon lon" "norm_lon lon < 180"
    using norm_lon_range[OF assms(1)] by simp_all
  have lat: "-90 \<le> norm_lat lat" "norm_lat lat < 90"
    using norm_lat_range[OF assms(2)] by simp_all
  have klon: "\<exists>k::int. lon = norm_lon lon + 360 * of_int k"
    using norm_lon_cong[of lon] by blast
  have klat: "\<exists>k::int. lat = norm_lat lat + 180 * of_int k"
    using norm_lat_cong[of lat] by blast
  have out: "compute_utm_zone lon lat = Inl InvalidUTM"
    if "\<not> (-80 \<le> norm_lat lat \<and> norm_lat lat \<le> 84)"
    using that by (auto simp add: compute_utm_zone_def utm_zone_of_def Let_def)
  have inside: "\<exists>z. compute_utm_zone lon lat = Inr (z, if norm_lat lat > 0 then N else S)
                 \<and> 1 \<le> z \<and> z \<le> 60"
    if b: "-80 \<le> norm_lat lat \<and> norm_lat lat \<le> 84"
  proof -
    have r: "1 \<le> utm_zone_of (norm_lon lon) (norm_lat lat)
           \<and> utm_zone_of (norm_lon lon) (norm_lat lat) \<le> 60"
      using general_zone_range[OF lon] b by (simp add: utm_zone_of_def)
    then have "utm_zone_of (norm_lon lon) (norm_lat lat) \<noteq> 0" by linarith
    then show ?thesis using r by (simp add: compute_utm_zone_def Let_def)
  qed
  show ?thesis using lon lat klon klat out inside by blast
qed

theorem compute_utm_zone_valid_band_witness:
  "(\<exists>z. compute_utm_zone 190 84 = Inr (z, N) \<and> 1 \<le> z \<and> z \<le> 60)
   \<and> compute_utm_zone 190 (-85) = Inl InvalidUTM"
  using compute_utm_zone_valid_band[where lon = 190 and lat = 84]
    compute_utm_zone_valid_band[where lon = 190 and lat = "-85"]
  by (simp add: norm_lat_id)

text \<open>
  Claim C2 as stated fails at latitude 84: it lies outside \<open>[-80, 84)\<close>, and the call
  returns zone 31 North instead of failing.
\<close>

theorem compute_utm_zone_lat_84:
  "\<not> (-80 \<le> norm_lat 84 \<and> norm_lat 84 < 84) \<and> compute_utm_zone 0 84 = Inr (31, N)"
  by (simp add: norm_lat_id) code_simp

section \<open>Properties of the bounding box\<close>

lemma amin_Min: "xs \<noteq> [] \<Longrightarrow> amin xs = Min (set xs)"
proof (cases xs)
  case (Cons a l)
  then show ?thesis by (simp only: amin.simps Min.set_eq_fold)
qed simp

lemma amax_Max: "xs \<noteq> [] \<Longrightarrow> amax xs = Max (set xs)"
proof (cases xs)
  case (Cons a l)
  then show ?thesis by (simp only: amax.simps Max.set_eq_fold)
qed simp

text \<open>
  Claim C3. Whenever a geotransform is available (the stored one when the raster has a
  projection, the one derived from the ground-control points otherwise),
  \<open>gdal_bounding_box\<close> returns \<open>[minX, minY, maxX, maxY]\<close>, the minimum and maximum
  over the four image corners, reprojected pointwise when a target projection is given.
\<close>

theorem gdal_bounding_box_envelope:
  assumes "GetProjection r \<noteq> [] \<and> proj = GetProjection r \<and> t = GetGeoTransform r
         \<or> GetProjection r = [] \<and> proj = GetGCPProjection r \<and> G (GetGCPs r) = Some t"
    and "pts = (case outProj of None \<Rightarrow> spec_corners t (RasterXSize r) (RasterYSize r)
                | Some out \<Rightarrow> map (reproject proj out) (spec_corners t (RasterXSize r) (RasterYSize r)))"
  shows "gdal_bounding_box G reproject r outProj =
           Some [Min (fst ` set pts), Min (snd ` set pts), Max (fst ` set pts), Max (snd ` set pts)]"
proof -
  have ne: "map fst pts \<noteq> []" "map snd pts \<noteq> []"
    using assms(2) by (auto simp: spec_corners_def split: option.splits)
  have m: "amin (map fst pts) = Min (fst ` set pts)" "amin (map snd pts) = Min (snd ` set pts)"
      "amax (map fst pts) = Max (fst ` set pts)" "amax (map snd pts) = Max (snd ` set pts)"
    using amin_Min[OF ne(1)] amin_Min[OF ne(2)] amax_Max[OF ne(1)] amax_Max[OF ne(2)]
    by simp_all
  have "gdal_bounding_box G reproject r outProj =
     Some [amin (map fst pts), amin (map snd pts), amax (map fst pts), amax (map snd pts)]"
    using assms by (auto simp: gdal_bounding_box_def spec_corners_def Let_def split: option.splits)
  then show ?thesis by (simp only: m)
qed

text \<open>
  The axis-aligned example of the specification: origin \<open>(0, 0)\<close>, pixel size
  \<open>(1, -1)\<close>, 10 by 10 pixels, no reprojection.
\<close>

theorem gdal_bounding_box_envelope_witness:
  "gdal_bounding_box (\<lambda>g::unit. None) (\<lambda>wkt (out::unit) p. p) example_raster None
   = Some [0, -10, 10, 0]"
  using gdal_bounding_box_envelope[where r = example_raster
     and proj = "''EPSG:32616''" and t = "\<lparr>c0 = 0, c1 = 1, c2 = 0, c3 = 0, c4 = 0, c5 = -1\<rparr>"
     and G = "\<lambda>g::unit. None" and outProj = "None :: unit option"
     and reproject = "\<lambda>wkt (out::unit) p. p", OF _ refl]
  by (simp add: spec_corners_def example_raster_def)

text \<open>
  Claim C4. A raster with no projection, whose ground-control points yield no
  geotransform, gets no bounding box: the function returns \<open>None\<close>.
\<close>

theorem gdal_bounding_box_no_georeference:
  assumes "GetProjection r = []" "G (GetGCPs r) = None"
  shows "gdal_bounding_box G reproject r outProj = None"
  using assms by (simp add: gdal_bounding_box_def)

theorem gdal_bounding_box_no_georeference_witness:
  "gdal_bounding_box (\<lambda>g::unit. None) (\<lambda>wkt (out::unit) p. p)
     (example_raster\<lparr>GetProjection := []\<rparr>) None = None"
  by (rule gdal_bounding_box_no_georeference) (simp_all add: example_raster_def)

section \<open>Properties of the offset reader\<close>

lemmas float_defs = py_float_def split_sign_def strip_def isspace_def isdigit_def digits_val_def
  digit_val_def parse_exponent_def scale10_def

lemmas re_defs = re_match_def reFloat_def reCS_def lit_def digit_def dot_def nl_def match_group_def

lemma read_lines_numeral:
  "read_lines (numeral k) f line = (case readline f of (l, f') \<Rightarrow> read_lines (pred_numeral k) f' l)"
  by (simp add: numeral_eq_Suc)

lemma read_offset_x_fails:
  assumes "re_match (reFloat CHR ''x'') (fst (readline file)) = None"
  shows "read_offset file =
     (case re_match reCS (read_lines 8 file []) of
        None \<Rightarrow> Inr [0, 0, 0]
      | Some m \<Rightarrow> assign_groups [0, 1, 2] m [0, 0, 0])"
  using assms by (simp add: read_offset_def split_def split: option.split)

lemma assign_groups_all:
  assumes "py_float (match_group m 1) = Inr vx" "py_float (match_group m 2) = Inr vy"
    "py_float (match_group m 3) = Inr vz"
  shows "assign_groups [0, 1, 2] m [a, b, c] = Inr [vx, vy, vz]"
  using assms by (simp add: eval_nat_numeral)

lemma read_offset_x_only:
  assumes "re_match (reFloat CHR ''x'') (fst (readline file)) = Some mx"
    and "py_float (match_group mx 1) = Inr vx"
    and "re_match (reFloat CHR ''y'') (fst (readline (snd (readline file)))) = None"
  shows "read_offset file = Inr [vx, 0, 0]"
  using assms by (simp add: read_offset_def split_def)

lemma read_offset_xy_only:
  assumes "re_match (reFloat CHR ''x'') (fst (readline file)) = Some mx"
    and "py_float (match_group mx 1) = Inr vx"
    and "re_match (reFloat CHR ''y'') (fst (readline (snd (readline file)))) = Some my"
    and "py_float (match_group my 1) = Inr vy"
    and "re_match (reFloat CHR ''z'') (fst (readline (snd (readline (snd (readline file)))))) = None"
  shows "read_offset file = Inr [vx, vy, 0]"
  using assms by (simp add: read_offset_def split_def)

lemma read_offset_xyz:
  assumes "re_match (reFloat CHR ''x'') (fst (readline file)) = Some mx"
    and "py_float (match_group mx 1) = Inr vx"
    and "re_match (reFloat CHR ''y'') (fst (readline (snd (readline file)))) = Some my"
    and "py_float (match_group my 1) = Inr vy"
    and "re_match (reFloat CHR ''z'') (fst (readline (snd (readline (snd (readline file)))))) = Some mz"
    and "py_float (match_group mz 1) = Inr vz"
  shows "read_offset file = Inr [vx, vy, vz]"
  using assms by (simp add: read_offset_def split_def)

lemma header_offsets_value:
  "read_offset header_offsets = Inr [747594.676221, 4407371.835686, 225.038274]"
  by (simp add: header_offsets_def read_offset_def readline_def re_defs float_defs)

lemma read_lines_1: "read_lines 1 f l = fst (readline f)"
  unfolding One_nat_def by (simp add: split_def)

lemma read_lines_2: "read_lines 2 f l = fst (readline (snd (readline f)))"
  by (simp add: read_lines_numeral read_lines_1 split_def)

lemma read_lines_3: "read_lines 3 f l = fst (readline (snd (readline (snd (readline f)))))"
  by (simp add: read_lines_numeral read_lines_1 split_def)

text \<open>
  Claim C5, as the code has it. The header \<open>header_offsets\<close>, whose first three lines are
  \<^verbatim>\<open>#x offset: 747594.676221\<close>, \<^verbatim>\<open>#y offset: 4407371.835686\<close> and
  \<^verbatim>\<open>#z offset: 225.038274\<close> (no blank after the hash sign), gives these three values.
  In general: three matching lines give their three values; a \<open>z\<close> line that does not match
  leaves the third offset 0, a \<open>y\<close> line that does not match leaves the last two 0; when
  the first line does not match the \<open>x\<close> pattern, the eighth line is matched against the
  \<^verbatim>\<open>coordinate_system\<close> pattern and its groups 1 to 3 are the result; and when that
  fails too the result is \<open>[0, 0, 0]\<close>, without an error.
\<close>

theorem read_offset_encodings:
  "read_offset header_offsets = Inr [747594.676221, 4407371.835686, 225.038274]
   \<and> (re_match (reFloat CHR ''x'') (read_lines 1 f []) = Some mx
        \<and> py_float (match_group mx 1) = Inr vx
        \<and> re_match (reFloat CHR ''y'') (read_lines 2 f []) = Some my
        \<and> py_float (match_group my 1) = Inr vy
        \<and> re_match (reFloat CHR ''z'') (read_lines 3 f []) = Some mz
        \<and> py_float (match_group mz 1) = Inr vz
      \<longrightarrow> read_offset f = Inr [vx, vy, vz])
   \<and> (re_match (reFloat CHR ''x'') (read_lines 1 f []) = Some mx
        \<and> py_float (match_group mx 1) = Inr vx
        \<and> re_match (reFloat CHR ''y'') (read_lines 2 f []) = Some my
        \<and> py_float (match_group my 1) = Inr vy
        \<and> re_match (reFloat CHR ''z'') (read_lines 3 f []) = None
      \<longrightarrow> read_offset f = Inr [vx, vy, 0])
   \<and> (re_match (reFloat CHR ''x'') (read_lines 1 f []) = Some mx
        \<and> py_float (match_group mx 1) = Inr vx
        \<and> re_match (reFloat CHR ''y'') (read_lines 2 f []) = None
      \<longrightarrow> read_offset f = Inr [vx, 0, 0])
   \<and> (re_match (reFloat CHR ''x'') (read_lines 1 f []) = None
        \<and> re_match reCS (read_lines 8 f []) = Some m
        \<and> py_float (match_group m 1) = Inr vx
        \<and> py_float (match_group m 2) = Inr vy
        \<and> py_float (match_group m 3) = Inr vz
      \<longrightarrow> read_offset f = Inr [vx, vy, vz])
   \<and> (re_match (reFloat CHR ''x'') (read_lines 1 f []) = None
        \<and> re_match reCS (read_lines 8 f []) = None
      \<longrightarrow> read_offset f = Inr [0, 0, 0])"
proof (intro conjI impI)
  show "read_offset header_offsets = Inr [747594.676221, 4407371.835686, 225.038274]"
    by (rule header_offsets_value)
next
  assume "re_match (reFloat CHR ''x'') (read_lines 1 f []) = Some mx
        \<and> py_float (match_group mx 1) = Inr vx
        \<and> re_match (reFloat CHR ''y'') (read_lines 2 f []) = Some my
        \<and> py_float (match_group my 1) = Inr vy
        \<and> re_match (reFloat CHR ''z'') (read_lines 3 f []) = Some mz
        \<and> py_float (match_group mz 1) = Inr vz"
  then show "read_offset f = Inr [vx, vy, vz]"
    using read_offset_xyz[of f mx vx my vy mz vz]
    by (simp add: read_lines_1 read_lines_2 read_lines_3 split_def)
next
  assume "re_match (reFloat CHR ''x'') (read_lines 1 f []) = Some mx
        \<and> py_float (match_group mx 1) = Inr vx
        \<and> re_match (reFloat CHR ''y'') (read_lines 2 f []) = Some my
        \<and> py_float (match_group my 1) = Inr vy
        \<and> re_match (reFloat CHR ''z'') (read_lines 3 f []) = None"
  then show "read_offset f = Inr [vx, vy, 0]"
    using read_offset_xy_only[of f mx vx my vy]
    by (simp add: read_lines_1 read_lines_2 read_lines_3 split_def)
next
  assume "re_match (reFloat CHR ''x'') (read_lines 1 f []) = Some mx
        \<and> py_float (match_group mx 1) = Inr vx
        \<and> re_match (reFloat CHR ''y'') (read_lines 2 f []) = None"
  then show "read_offset f = Inr [vx, 0, 0]"
    using read_offset_x_only[of f mx vx]
    by (simp add: read_lines_1 read_lines_2 read_lines_3 split_def)
next
  assume a: "re_match (reFloat CHR ''x'') (read_lines 1 f []) = None
        \<and> re_match reCS (read_lines 8 f []) = Some m
        \<and> py_float (match_group m 1) = Inr vx
        \<and> py_float (match_group m 2) = Inr vy
        \<and> py_float (match_group m 3) = Inr vz"
  then have "re_match (reFloat CHR ''x'') (fst (readline f)) = None"
    by (simp only: read_lines_1)
  from read_offset_x_fails[OF this] a have "read_offset f = assign_groups [0, 1, 2] m [0, 0, 0]"
    by simp
  also from a have "\<dots> = Inr [vx, vy, vz]"
    by (intro assign_groups_all) blast+
  finally show "read_offset f = Inr [vx, vy, vz]" .
next
  assume a: "re_match (reFloat CHR ''x'') (read_lines 1 f []) = None
        \<and> re_match reCS (read_lines 8 f []) = None"
  then have "re_match (reFloat CHR ''x'') (fst (readline f)) = None"
    by (simp only: read_lines_1)
  from read_offset_x_fails[OF this] a show "read_offset f = Inr [0, 0, 0]"
    by simp
qed

lemmas eval_defs = readline_def re_defs read_lines_numeral

text \<open>
  The five cases on concrete headers: three offset lines, two, one, the
  \<^verbatim>\<open>coordinate_system\<close> line of the docstring on line 8, and neither encoding.
\<close>

theorem read_offset_encodings_witness:
  "read_offset header_offsets = Inr [747594.676221, 4407371.835686, 225.038274]
   \<and> read_offset header_xy = Inr [1.5, -20, 0]
   \<and> read_offset header_x = Inr [1.5, 0, 0]
   \<and> read_offset header_cs = Inr [747594.6762214857, 4407371.835685772, 225.03827424185408]
   \<and> read_offset header_spaced = Inr [0, 0, 0]"
proof -
  have o: "re_match (reFloat CHR ''x'') (read_lines 1 header_offsets []) =
             Some [(1, ''747594.676221''), (2, ''747594.676221''), (3, ''.676221'')]"
    "re_match (reFloat CHR ''y'') (read_lines 2 header_offsets []) =
             Some [(1, ''4407371.835686''), (2, ''4407371.835686''), (3, ''.835686'')]"
    "re_match (reFloat CHR ''z'') (read_lines 3 header_offsets []) =
             Some [(1, ''225.038274''), (2, ''225.038274''), (3, ''.038274'')]"
    by (simp_all add: header_offsets_def eval_defs)
  have xy: "re_match (reFloat CHR ''x'') (read_lines 1 header_xy []) =
             Some [(1, ''1.5''), (2, ''1.5''), (3, ''.5'')]"
    "re_match (reFloat CHR ''y'') (read_lines 2 header_xy []) =
             Some [(1, ''-2e1''), (4, ''e1''), (2, ''2'')]"
    "re_match (reFloat CHR ''z'') (read_lines 3 header_xy []) = None"
    by (simp_all add: header_xy_def eval_defs)
  have x: "re_match (reFloat CHR ''x'') (read_lines 1 header_x []) =
             Some [(1, ''1.5''), (2, ''1.5''), (3, ''.5'')]"
    "re_match (reFloat CHR ''y'') (read_lines 2 header_x []) = None"
    by (simp_all add: header_x_def eval_defs)
  have cs: "re_match (reFloat CHR ''x'') (read_lines 1 header_cs []) = None"
    "re_match reCS (read_lines 8 header_cs []) =
       Some [(3, ''225.03827424185408''), (2, ''4407371.835685772''), (1, ''747594.6762214857'')]"
    by (simp_all add: header_cs_def eval_defs)
  have sp: "re_match (reFloat CHR ''x'') (read_lines 1 header_spaced []) = None"
    "re_match reCS (read_lines 8 header_spaced []) = None"
    by (simp_all add: header_spaced_def eval_defs)
  have fl: "py_float ''747594.676221'' = Inr 747594.676221"
    "py_float ''4407371.835686'' = Inr 4407371.835686"
    "py_float ''225.038274'' = Inr 225.038274"
    "py_float ''1.5'' = Inr 1.5" "py_float ''-2e1'' = Inr (-20)"
    "py_float ''747594.6762214857'' = Inr 747594.6762214857"
    "py_float ''4407371.835685772'' = Inr 4407371.835685772"
    "py_float ''225.03827424185408'' = Inr 225.03827424185408"
    by (simp_all add: float_defs)
  have g: "match_group [(1, a), (2, b), (3, c)] 1 = a" "match_group [(1, a), (4, b), (2, c)] 1 = a"
    "match_group [(3, c), (2, b), (1, a)] 1 = a" "match_group [(3, c), (2, b), (1, a)] 2 = b"
    "match_group [(3, c), (2, b), (1, a)] 3 = c" for a b c
    by (simp_all add: match_group_def)
  have 1: "read_offset header_offsets = Inr [747594.676221, 4407371.835686, 225.038274]"
    apply (rule read_offset_encodings[THEN conjunct2, THEN conjunct1, THEN mp])
    apply (intro conjI)
         apply (rule o(1))
        apply (simp only: g fl)
       apply (rule o(2))
      apply (simp only: g fl)
     apply (rule o(3))
    apply (simp only: g fl)
    done
  have 2: "read_offset header_xy = Inr [1.5, -20, 0]"
    apply (rule read_offset_encodings[THEN conjunct2, THEN conjunct2, THEN conjunct1, THEN mp])
    apply (intro conjI)
        apply (rule xy(1))
       apply (simp only: g fl)
      apply (rule xy(2))
     apply (simp only: g fl)
    apply (rule xy(3))
    done
  have 3: "read_offset header_x = Inr [1.5, 0, 0]"
    apply (rule read_offset_encodings[THEN conjunct2, THEN conjunct2, THEN conjunct2,
          THEN conjunct1, THEN mp])
    apply (intro conjI)
      apply (rule x(1))
     apply (simp only: g fl)
    apply (rule x(2))
    done
  have 4: "read_offset header_cs =
             Inr [747594.6762214857, 4407371.835685772, 225.03827424185408]"
    apply (rule read_offset_encodings[THEN conjunct2, THEN conjunct2, THEN conjunct2,
          THEN conjunct2, THEN conjunct1, THEN mp])
    apply (intro conjI)
        apply (rule cs(1))
       apply (rule cs(2))
      apply (simp only: g fl)
     apply (simp only: g fl)
    apply (simp only: g fl)
    done
  have 5: "read_offset header_spaced = Inr [0, 0, 0]"
    apply (rule read_offset_encodings[THEN conjunct2, THEN conjunct2, THEN conjunct2,
          THEN conjunct2, THEN conjunct2, THEN mp])
    apply (intro conjI)
     apply (rule sp(1))
    apply (rule sp(2))
    done
  from 1 2 3 4 5 show ?thesis by blast
qed

text \<open>
  Claim C5 as stated fails on the header it names: with a blank after the hash sign
  (\<^verbatim>\<open># x offset: 747594.676221\<close> and so on) no line matches the pattern
  \<^verbatim>\<open>#x offset: ...\<close>, and the result is \<open>[0, 0, 0]\<close>.
\<close>

theorem read_offset_spaced_header:
  "read_offset header_spaced = Inr [0, 0, 0]
   \<and> read_offset header_spaced \<noteq> Inr [747594.676221, 4407371.835686, 225.038274]"
  by (simp add: header_spaced_def read_offset_def eval_defs float_defs)

section \<open>Properties of the working directory check\<close>

lemma create_working_dir_nested:
  assumes "wd \<noteq> []" "prefix (realpath imagery_dir) (realpath wd)"
  shows "create_working_dir now isdir realpath (Some wd) imagery_dir = Inl WorkingDirConflict"
  using assms by (auto simp: create_working_dir_def Let_def prefix_def)

lemma create_working_dir_ancestor:
  assumes "wd \<noteq> []" "length (realpath wd) < length (realpath imagery_dir)"
  shows "create_working_dir now isdir realpath (Some wd) imagery_dir =
           Inr (wd, if isdir wd then [] else [wd])"
proof -
  have "\<not> sublist (realpath imagery_dir) (realpath wd)"
    using assms(2) by (auto simp: sublist_def)
  then show ?thesis using assms(1) by (simp add: create_working_dir_def Let_def)
qed

text \<open>
  Claim C8 at a sibling of the imagery directory. With the imagery in
  \<^verbatim>\<open>/data/imagery\<close> and the working directory \<^verbatim>\<open>/data/imagery_work\<close> beside it
  (both paths already canonical), the working directory is neither the imagery
  directory nor inside it, and \<open>create_working_dir\<close> still raises the conflict: the
  test is whether one path occurs in the other as a piece of text.
\<close>

theorem create_working_dir_sibling:
  "create_working_dir ''1541234567.25'' (\<lambda>p. True) (\<lambda>p. p)
     (Some ''/data/imagery_work'') ''/data/imagery'' = Inl WorkingDirConflict
   \<and> ''/data/imagery_work'' \<noteq> ''/data/imagery''
   \<and> \<not> prefix (''/data/imagery'' @ ''/'') ''/data/imagery_work''"
  by (simp add: create_working_dir_def)

section \<open>Properties of the grouping loop\<close>

lemma update_fresh: "k \<notin> fst ` set d \<Longrightarrow> AList.update k v d = d @ [(k, v)]"
  by (induction d) auto

lemma update_last: "k \<notin> fst ` set d \<Longrightarrow> AList.update k v (d @ [(k, w)]) = d @ [(k, v)]"
  by (induction d) auto

lemma delete_last: "k \<notin> fst ` set d \<Longrightarrow> AList.delete k (d @ [(k, w)]) = d"
  by (induction d) (auto simp: AList.delete_eq)

lemma group_step_fresh:
  assumes "p \<notin> fst ` set d"
  shows "group_step ntf rpc info p (d, inc, w) =
     (if collection_complete (classify_all ntf rpc info p)
      then (d @ [(p, classify_all ntf rpc info p)], inc, w)
      else (d, inc @ [p], w @ [skip_warning p]))"
  using assms by (simp add: group_step_def Let_def update_fresh update_last delete_last)

lemma group_fold:
  assumes "distinct ps" "set ps \<inter> fst ` set d = {}"
  shows "fold (group_step ntf rpc info) ps (d, inc, w) =
     (d @ map (\<lambda>p. (p, classify_all ntf rpc info p))
            (filter (\<lambda>p. collection_complete (classify_all ntf rpc info p)) ps),
      inc @ filter (\<lambda>p. \<not> collection_complete (classify_all ntf rpc info p)) ps,
      w @ map skip_warning (filter (\<lambda>p. \<not> collection_complete (classify_all ntf rpc info p)) ps))"
  using assms
proof (induction ps arbitrary: d inc w)
  case Nil
  then show ?case by simp
next
  case (Cons p ps)
  have fresh: "p \<notin> fst ` set d" using Cons.prems by auto
  show ?case
  proof (cases "collection_complete (classify_all ntf rpc info p)")
    case True
    have "set ps \<inter> fst ` set (d @ [(p, classify_all ntf rpc info p)]) = {}"
      using Cons.prems by auto
    with Cons.IH[of "d @ [(p, classify_all ntf rpc info p)]" inc w] Cons.prems True fresh
    show ?thesis by (simp add: group_step_fresh)
  next
    case False
    have "set ps \<inter> fst ` set d = {}" using Cons.prems by auto
    with Cons.IH[of d "inc @ [p]" "w @ [skip_warning p]"] Cons.prems False fresh
    show ?thesis by (simp add: group_step_fresh)
  qed
qed

lemma group_collections_eq:
  assumes "distinct ps"
  shows "group_collections ps ntf rpc info =
     (map (\<lambda>p. (p, classify_all ntf rpc info p))
            (filter (\<lambda>p. collection_complete (classify_all ntf rpc info p)) ps),
      filter (\<lambda>p. \<not> collection_complete (classify_all ntf rpc info p)) ps,
      map skip_warning (filter (\<lambda>p. \<not> collection_complete (classify_all ntf rpc info p)) ps))"
  using group_fold[OF assms, of "[]" ntf rpc info "[]" "[]"] by (simp add: group_collections_def)

lemma ensure_complete_modality_iff:
  "ensure_complete_modality m require_rpc \<longleftrightarrow>
     map_of m ''image'' \<noteq> None \<and> map_of m ''info'' \<noteq> None
     \<and> (require_rpc \<longrightarrow> map_of m ''rpc'' \<noteq> None)"
  by (auto simp: ensure_complete_modality_def Let_def map_of_eq_None_iff)

lemma spec_modality_complete_eq:
  "ensure_complete_modality m require_rpc = spec_modality_complete m require_rpc"
  by (simp add: ensure_complete_modality_iff spec_modality_complete_def)

lemma collection_complete_eq: "collection_complete e = spec_complete e"
  by (simp add: collection_complete_def spec_complete_def spec_modality_complete_eq)

text \<open>
  Claim C6. For prefixes without repetition, the collections kept by the grouping loop
  are exactly those whose \<open>pan\<close> and \<open>msi\<close> modalities are complete in the sense of the
  specification (image, info and rpc present), in the order of the prefixes and each
  with its classified files; the identifiers on the side list are exactly the others;
  \<open>ensure_complete_modality\<close> is the specification's completeness; and the \<open>swir\<close>
  files play no part in it.
\<close>

theorem modality_validator_excludes:
  assumes "distinct prefix_list"
  shows "map fst (fst (group_collections prefix_list ntf rpc info)) =
           filter (\<lambda>p. spec_complete (classify_all ntf rpc info p)) prefix_list
       \<and> fst (snd (group_collections prefix_list ntf rpc info)) =
           filter (\<lambda>p. \<not> spec_complete (classify_all ntf rpc info p)) prefix_list
       \<and> (\<forall>p e. (p, e) \<in> set (fst (group_collections prefix_list ntf rpc info)) \<longrightarrow>
             e = classify_all ntf rpc info p)
       \<and> (\<forall>m r. ensure_complete_modality m r = spec_modality_complete m r)
       \<and> (\<forall>e s. spec_complete (e\<lparr>swir := s\<rparr>) = spec_complete e)"
proof -
  have "map fst (fst (group_collections prefix_list ntf rpc info)) =
           filter (\<lambda>p. spec_complete (classify_all ntf rpc info p)) prefix_list"
    by (simp add: group_collections_eq[OF assms] collection_complete_eq comp_def)
  moreover have "fst (snd (group_collections prefix_list ntf rpc info)) =
           filter (\<lambda>p. \<not> spec_complete (classify_all ntf rpc info p)) prefix_list"
    by (simp add: group_collections_eq[OF assms] collection_complete_eq)
  moreover have "\<forall>p e. (p, e) \<in> set (fst (group_collections prefix_list ntf rpc info)) \<longrightarrow>
             e = classify_all ntf rpc info p"
    by (auto simp: group_collections_eq[OF assms])
  moreover have "\<forall>m r. ensure_complete_modality m r = spec_modality_complete m r"
    by (simp add: spec_modality_complete_eq)
  moreover have "\<forall>e s. spec_complete (e\<lparr>swir := s\<rparr>) = spec_complete e"
    by (simp add: spec_complete_def)
  ultimately show ?thesis by blast
qed


lemmas classify_defs = classify_all_def classify_fpaths_def classify_fpath_def new_collection_def
  example_ntf_def example_rpc_def example_info_def

lemma example_entry1:
  "classify_all example_ntf example_rpc example_info ''15FEB15142542'' =
     \<lparr>pan = [(''image'', ''/img/15FEB15142542-P1BS-a.ntf''),
             (''rpc'', ''/rpc/15FEB15142542-P1BS-a.rpc''),
             (''info'', ''/img/15FEB15142542-P1BS-a.tar'')],
      pansharpened_fpath = [], rgb_fpath = [],
      msi = [(''image'', ''/img/15FEB15142542-M1BS-a.ntf''),
             (''rpc'', ''/rpc/15FEB15142542-M1BS-a.rpc''),
             (''info'', ''/img/15FEB15142542-M1BS-a.tar'')],
      swir = [], angle = - 1\<rparr>"
  by code_simp


lemma example_entry2:
  "classify_all example_ntf example_rpc example_info ''16MAR16101010'' =
     \<lparr>pan = [(''image'', ''/img/16MAR16101010-P1BS-b.NTF''),
             (''rpc'', ''/rpc/16MAR16101010-P1BS-b.rpc''),
             (''info'', ''/img/16MAR16101010-P1BS-b.tar'')],
      pansharpened_fpath = [], rgb_fpath = [],
      msi = [(''image'', ''/img/16MAR16101010-M1BS-b.ntf''),
             (''rpc'', ''/rpc/16MAR16101010-M1BS-b.rpc'')],
      swir = [], angle = - 1\<rparr>"
  by code_simp

text \<open>
  Two collections, the second without the info archive of its \<open>msi\<close> image: the first is
  kept, the second goes on the side list.
\<close>

theorem modality_validator_excludes_witness:
  "map fst (fst (group_collections [''15FEB15142542'', ''16MAR16101010'']
                    example_ntf example_rpc example_info)) = [''15FEB15142542'']
   \<and> fst (snd (group_collections [''15FEB15142542'', ''16MAR16101010'']
                    example_ntf example_rpc example_info)) = [''16MAR16101010'']"
  using modality_validator_excludes[of "[''15FEB15142542'', ''16MAR16101010'']"
          example_ntf example_rpc example_info]
  by (simp add: example_entry1 example_entry2 spec_complete_def spec_modality_complete_def)

section \<open>Properties of the collection classifier\<close>

lemma walk_fpaths_set:
  "set (walk_fpaths walk ext) =
     {path_join root file | root dirs files file.
        (root, dirs, files) \<in> set walk \<and> file \<in> set files \<and> suffix ext (lower file)}"
  by (auto simp: walk_fpaths_def endswith_def)

lemma has_shape_Nil: "has_shape [] s"
  by (simp add: has_shape_def)

lemma has_shape_Cons:
  "has_shape (cs # css) s \<longleftrightarrow> (\<exists>c s'. s = c # s' \<and> c \<in> set cs \<and> has_shape css s')"
  by (cases s) (auto simp: has_shape_def)

lemma has_shape_append:
  "has_shape (a @ b) s \<longleftrightarrow> has_shape a s \<and> has_shape b (drop (length a) s)"
proof (induction a arbitrary: s)
  case Nil
  then show ?case by (simp add: has_shape_Nil)
next
  case (Cons cs a)
  then show ?case by (cases s) (auto simp: has_shape_Cons)
qed

lemma has_shape_length: "has_shape css s \<Longrightarrow> length css \<le> length s"
  by (simp add: has_shape_def)

lemma fixed_Eps: "fixed_shape Eps []"
  by (simp add: fixed_shape_def has_shape_Nil)

lemma fixed_Chars: "fixed_shape (Chars cs) [cs]"
  unfolding fixed_shape_def
proof (intro allI)
  fix s g
  show "ms (Chars cs) (s, g) = (if has_shape [cs] s then [(drop (length [cs]) s, g)] else [])"
    by (cases s) (auto simp: has_shape_Cons has_shape_Nil)
qed

lemma fixed_Seq:
  assumes "fixed_shape r1 a" "fixed_shape r2 b"
  shows "fixed_shape (Seq r1 r2) (a @ b)"
  using assms by (auto simp: fixed_shape_def has_shape_append add.commute)

lemma fixed_rep: "fixed_shape r a \<Longrightarrow> fixed_shape (rep n r) (concat (replicate n a))"
  by (induction n) (auto intro: fixed_Eps fixed_Seq)

lemma fixed_prefix_regex: "fixed_shape prefix_regex (id_shape @ [''-''])"
proof -
  have d: "fixed_shape digit [''0123456789'']"
    unfolding digit_def by (rule fixed_Chars)
  have u: "fixed_shape upper_letter [''ABCDEFGHIJKLMNOPQRSTUVWXYZ'']"
    unfolding upper_letter_def by (rule fixed_Chars)
  have "fixed_shape prefix_regex
     (concat (replicate 2 [''0123456789'']) @ concat (replicate 3 [''ABCDEFGHIJKLMNOPQRSTUVWXYZ''])
      @ concat (replicate 8 [''0123456789'']) @ [''-''])"
    unfolding prefix_regex_def
    by (intro fixed_Seq fixed_rep d u fixed_Chars)
  moreover have "concat (replicate n [x]) = replicate n x" for n and x :: string
    by (induction n) auto
  ultimately show ?thesis by (simp add: id_shape_def)
qed

lemma re_search_fixed:
  assumes "fixed_shape r css"
  shows "re_search r f =
     (if \<exists>i \<le> length f. has_shape css (drop i f)
      then Some (take (length css) (drop (LEAST i. has_shape css (drop i f)) f))
      else None)"
proof (induction f)
  case Nil
  have m: "ms r ([], []) = (if has_shape css [] then [([], [])] else [])"
    using assms by (simp add: fixed_shape_def)
  show ?case
  proof (cases "has_shape css []")
    case True
    then have "(LEAST i. has_shape css (drop i [])) = 0" by (intro Least_equality) auto
    with True m show ?thesis by auto
  next
    case False
    with m show ?thesis by auto
  qed
next
  case (Cons c f)
  have m: "ms r (c # f, []) =
      (if has_shape css (c # f) then [(drop (length css) (c # f), [])] else [])"
    using assms by (simp add: fixed_shape_def)
  show ?case
  proof (cases "has_shape css (c # f)")
    case True
    then have l: "(LEAST i. has_shape css (drop i (c # f))) = 0"
      by (intro Least_equality) auto
    have ex: "\<exists>i \<le> length (c # f). has_shape css (drop i (c # f))"
      using True by (intro exI[of _ 0]) simp
    have len: "length css \<le> length (c # f)" using True by (rule has_shape_length)
    have "length (c # f) - length (drop (length css) (c # f)) = length css"
      using len by simp
    then have "re_search r (c # f) = Some (take (length css) (c # f))"
      using True m by (simp del: length_drop)
    then show ?thesis using ex l by simp
  next
    case False
    then have s: "re_search r (c # f) = re_search r f" using m by simp
    have iff: "(\<exists>i \<le> length (c # f). has_shape css (drop i (c # f)))
            \<longleftrightarrow> (\<exists>i \<le> length f. has_shape css (drop i f))"
    proof
      assume "\<exists>i \<le> length (c # f). has_shape css (drop i (c # f))"
      then obtain i where i: "i \<le> length (c # f)" "has_shape css (drop i (c # f))" by blast
      with False have "i \<noteq> 0" by (cases i) auto
      then obtain j where "i = Suc j" by (cases i) auto
      with i show "\<exists>i \<le> length f. has_shape css (drop i f)" by auto
    next
      assume "\<exists>i \<le> length f. has_shape css (drop i f)"
      then obtain i where "i \<le> length f" "has_shape css (drop i f)" by blast
      then show "\<exists>i \<le> length (c # f). has_shape css (drop i (c # f))"
        by (intro exI[of _ "Suc i"]) simp
    qed
    show ?thesis
    proof (cases "\<exists>i \<le> length f. has_shape css (drop i f)")
      case ex: True
      then obtain i where i: "has_shape css (drop i f)" by blast
      have l: "(LEAST i. has_shape css (drop i (c # f))) = Suc (LEAST i. has_shape css (drop i f))"
      proof (rule Least_Suc2[where Q = "\<lambda>i. has_shape css (drop i f)"])
        show "has_shape css (drop (Suc i) (c # f))" using i by simp
        show "has_shape css (drop i f)" by (rule i)
        show "\<not> has_shape css (drop 0 (c # f))" using False by simp
        show "\<forall>k. has_shape css (drop (Suc k) (c # f)) = has_shape css (drop k f)" by simp
      qed
      have "re_search r (c # f) =
              Some (take (length css) (drop (LEAST i. has_shape css (drop i f)) f))"
        unfolding s Cons.IH using ex by simp
      also have "\<dots> = Some (take (length css)
                        (drop (LEAST i. has_shape css (drop i (c # f))) (c # f)))"
        unfolding l by simp
      finally have "re_search r (c # f) = Some (take (length css)
                        (drop (LEAST i. has_shape css (drop i (c # f))) (c # f)))" .
      moreover have "\<exists>i \<le> length (c # f). has_shape css (drop i (c # f))"
        using ex iff by blast
      ultimately show ?thesis by (simp only: if_True)
    next
      case nex: False
      have "re_search r (c # f) = None"
        unfolding s Cons.IH using nex by simp
      moreover have "\<not> (\<exists>i \<le> length (c # f). has_shape css (drop i (c # f)))"
        using nex iff by blast
      ultimately show ?thesis by (simp only: if_False)
    qed
  qed
qed

lemma length_id_shape: "length id_shape = 13"
  by (simp add: id_shape_def)

lemma id_shape_last_digit:
  assumes "has_shape id_shape s"
  shows "s ! 12 \<in> set ''0123456789''"
proof -
  have l: "list_all2 (\<lambda>cs c. c \<in> set cs) id_shape (take 13 s)" and n: "13 \<le> length s"
    using assms by (simp_all add: has_shape_def length_id_shape)
  have "take 13 s ! 12 \<in> set (id_shape ! 12)"
    using list_all2_nthD[OF l, of 12] by (simp add: length_id_shape)
  moreover have "id_shape ! 12 = ''0123456789''"
    by (simp add: id_shape_def nth_append)
  ultimately show ?thesis by simp
qed

lemma rstrip_id:
  assumes "has_shape (id_shape @ [''-'']) s"
  shows "rstrip CHR ''-'' (take (length (id_shape @ [''-''])) s) = take 13 s"
proof -
  from assms have a: "has_shape id_shape s" and b: "has_shape [''-''] (drop 13 s)"
    by (simp_all add: has_shape_append length_id_shape)
  from b obtain s' where d: "drop 13 s = CHR ''-'' # s'"
    by (auto simp: has_shape_Cons)
  have n: "13 \<le> length s" using a by (simp add: has_shape_def length_id_shape)
  have t14: "take 14 s = take 13 s @ [CHR ''-'']"
  proof -
    have "take 14 s = take 13 s @ take 1 (drop 13 s)"
      using take_add[of 13 1 s] by simp
    then show ?thesis by (simp add: d)
  qed
  have ne: "take 13 s \<noteq> []" using n by auto
  have "last (take 13 s) = s ! 12"
    using n ne by (simp add: last_conv_nth min_def)
  then have "last (take 13 s) \<noteq> CHR ''-''"
    using id_shape_last_digit[OF a] by auto
  then have "dropWhile (\<lambda>d. d = CHR ''-'') (rev (take 13 s)) = rev (take 13 s)"
    using ne by (cases "rev (take 13 s)") (auto simp: last_rev[symmetric] hd_rev)
  then show ?thesis
    by (simp add: rstrip_def length_id_shape t14)
qed

lemma set_map_filter_iff:
  "y \<in> set (List.map_filter g xs) \<longleftrightarrow> (\<exists>x \<in> set xs. g x = Some y)"
  by (induction xs) (auto split: option.splits)

lemma find_prefixes_set:
  "set (find_prefixes ntf_fpaths) =
     {take 13 (drop i f) | f i. f \<in> set ntf_fpaths \<and> has_shape (id_shape @ [''-'']) (drop i f)
                             \<and> (\<forall>j<i. \<not> has_shape (id_shape @ [''-'']) (drop j f))}"
  (is "?L = ?R")
proof (intro equalityI subsetI)
  fix p assume "p \<in> ?L"
  then obtain f m where f: "f \<in> set ntf_fpaths" and m: "re_search prefix_regex f = Some m"
    and p: "p = rstrip CHR ''-'' m"
    by (auto simp: find_prefixes_def set_map_filter_iff)
  let ?P = "\<lambda>i. has_shape (id_shape @ [''-'']) (drop i f)"
  from m have ex: "\<exists>i \<le> length f. ?P i"
    and mm: "m = take (length (id_shape @ [''-''])) (drop (LEAST i. ?P i) f)"
    unfolding re_search_fixed[OF fixed_prefix_regex] by (auto split: if_splits)
  from ex have l: "?P (LEAST i. ?P i)" by (auto intro: LeastI)
  have min: "\<forall>j<(LEAST i. ?P i). \<not> ?P j" using not_less_Least by blast
  have "p = take 13 (drop (LEAST i. ?P i) f)"
    unfolding p mm by (rule rstrip_id[OF l])
  with f l min show "p \<in> ?R" by blast
next
  fix p assume "p \<in> ?R"
  then obtain f i where f: "f \<in> set ntf_fpaths" and i: "has_shape (id_shape @ [''-'']) (drop i f)"
    and min: "\<forall>j<i. \<not> has_shape (id_shape @ [''-'']) (drop j f)" and p: "p = take 13 (drop i f)"
    by blast
  let ?P = "\<lambda>i. has_shape (id_shape @ [''-'']) (drop i f)"
  have least: "(LEAST i. ?P i) = i"
    using i min by (intro Least_equality) (auto simp: not_less[symmetric])
  have "i \<le> length f" using has_shape_length[OF i] by (simp add: length_id_shape)
  then have "re_search prefix_regex f = Some (take (length (id_shape @ [''-''])) (drop i f))"
    unfolding re_search_fixed[OF fixed_prefix_regex] using i least by auto
  moreover have "rstrip CHR ''-'' (take (length (id_shape @ [''-''])) (drop i f)) = p"
    unfolding p by (rule rstrip_id[OF i])
  ultimately show "p \<in> ?L" using f
    by (force simp: find_prefixes_def set_map_filter_iff)
qed

lemma last_matching_Nil: "last_matching G [] = None"
  by (simp add: last_matching_def)

lemma last_matching_Cons:
  "last_matching G (x # xs) =
     (case last_matching G xs of Some y \<Rightarrow> Some y | None \<Rightarrow> if G x then Some x else None)"
  by (auto simp: last_matching_def split: list.splits)

lemma map_of_fold_update:
  "map_of (fold (\<lambda>f m. if G f then AList.update t f m else m) fs m0) k =
     (if k = t then (case last_matching G fs of None \<Rightarrow> map_of m0 k | Some f \<Rightarrow> Some f)
      else map_of m0 k)"
proof (induction fs arbitrary: m0)
  case Nil
  then show ?case by (simp add: last_matching_Nil)
next
  case (Cons x xs)
  show ?case
    by (simp add: Cons.IH last_matching_Cons update_conv' split: option.splits)
qed

lemma pan_fold:
  "pan (fold (classify_fpath p t) fs e) =
     fold (\<lambda>f m. if sublist p f \<and> sublist ''-P1BS-'' f then AList.update t f m else m) fs (pan e)"
  by (induction fs arbitrary: e) (simp_all add: classify_fpath_def)

lemma msi_fold:
  "msi (fold (classify_fpath p t) fs e) =
     fold (\<lambda>f m. if sublist p f \<and> \<not> sublist ''-P1BS-'' f \<and> sublist ''-M1BS-'' f
                  then AList.update t f m else m) fs (msi e)"
  by (induction fs arbitrary: e) (simp_all add: classify_fpath_def)

lemma swir_fold:
  "swir (fold (classify_fpath p t) fs e) =
     fold (\<lambda>f m. if sublist p f \<and> \<not> sublist ''-P1BS-'' f \<and> \<not> sublist ''-M1BS-'' f
                     \<and> sublist ''-A1BS-'' f
                  then AList.update t f m else m) fs (swir e)"
  by (induction fs arbitrary: e) (simp_all add: classify_fpath_def)

lemma classify_all_pan:
  "map_of (pan (classify_all ntf rpc info p)) k =
     (let G = (\<lambda>f. sublist p f \<and> sublist ''-P1BS-'' f) in
      if k = ''image'' then last_matching G ntf
      else if k = ''rpc'' then last_matching G rpc
      else if k = ''info'' then last_matching G info
      else None)"
  by (simp add: classify_all_def classify_fpaths_def pan_fold map_of_fold_update
        new_collection_def Let_def split: option.splits)

lemma classify_all_msi:
  "map_of (msi (classify_all ntf rpc info p)) k =
     (let G = (\<lambda>f. sublist p f \<and> \<not> sublist ''-P1BS-'' f \<and> sublist ''-M1BS-'' f) in
      if k = ''image'' then last_matching G ntf
      else if k = ''rpc'' then last_matching G rpc
      else if k = ''info'' then last_matching G info
      else None)"
  by (simp add: classify_all_def classify_fpaths_def msi_fold map_of_fold_update
        new_collection_def Let_def split: option.splits)

lemma classify_all_swir:
  "map_of (swir (classify_all ntf rpc info p)) k =
     (let G = (\<lambda>f. sublist p f \<and> \<not> sublist ''-P1BS-'' f \<and> \<not> sublist ''-M1BS-'' f
                   \<and> sublist ''-A1BS-'' f) in
      if k = ''image'' then last_matching G ntf
      else if k = ''rpc'' then last_matching G rpc
      else if k = ''info'' then last_matching G info
      else None)"
  by (simp add: classify_all_def classify_fpaths_def swir_fold map_of_fold_update
        new_collection_def Let_def split: option.splits)

text \<open>
  Claim C10, as the code has it. The paths collected from a walk for an extension are
  the joined names of the files whose lower-cased name ends with it. The identifiers
  come from the \<^verbatim>\<open>.ntf\<close> paths alone: for each path, the thirteen characters at the
  leftmost place where two digits, three upper-case letters, eight digits and a hyphen
  stand. In the record of an identifier \<open>p\<close>, the entry of each file type
  (\<^verbatim>\<open>image\<close> from the \<^verbatim>\<open>.ntf\<close> paths, \<^verbatim>\<open>rpc\<close> from the \<^verbatim>\<open>.rpc\<close> paths,
  \<^verbatim>\<open>info\<close> from the \<^verbatim>\<open>.tar\<close> paths) is the last path of that list that contains \<open>p\<close>
  and the marker: \<^verbatim>\<open>-P1BS-\<close> for \<open>pan\<close>, otherwise \<^verbatim>\<open>-M1BS-\<close> for \<open>msi\<close>,
  otherwise \<^verbatim>\<open>-A1BS-\<close> for \<open>swir\<close>.
\<close>

theorem collection_classifier:
  "set (walk_fpaths walk ext) =
     {path_join root file | root dirs files file.
        (root, dirs, files) \<in> set walk \<and> file \<in> set files \<and> suffix ext (lower file)}
   \<and> set (find_prefixes ntf_fpaths) =
     {take 13 (drop i f) | f i. f \<in> set ntf_fpaths \<and> has_shape (id_shape @ [''-'']) (drop i f)
                             \<and> (\<forall>j<i. \<not> has_shape (id_shape @ [''-'']) (drop j f))}
   \<and> (\<forall>(file_type, fpaths) \<in> {(''image'', ntf_fpaths), (''rpc'', rpc_fpaths), (''info'', info_fpaths)}.
         map_of (pan (classify_all ntf_fpaths rpc_fpaths info_fpaths p)) file_type =
           last_matching (\<lambda>f. sublist p f \<and> sublist ''-P1BS-'' f) fpaths
       \<and> map_of (msi (classify_all ntf_fpaths rpc_fpaths info_fpaths p)) file_type =
           last_matching (\<lambda>f. sublist p f \<and> \<not> sublist ''-P1BS-'' f \<and> sublist ''-M1BS-'' f) fpaths
       \<and> map_of (swir (classify_all ntf_fpaths rpc_fpaths info_fpaths p)) file_type =
           last_matching (\<lambda>f. sublist p f \<and> \<not> sublist ''-P1BS-'' f \<and> \<not> sublist ''-M1BS-'' f
                                \<and> sublist ''-A1BS-'' f) fpaths)"
proof (intro conjI)
  show "set (walk_fpaths walk ext) =
     {path_join root file | root dirs files file.
        (root, dirs, files) \<in> set walk \<and> file \<in> set files \<and> suffix ext (lower file)}"
    by (rule walk_fpaths_set)
  show "set (find_prefixes ntf_fpaths) =
     {take 13 (drop i f) | f i. f \<in> set ntf_fpaths \<and> has_shape (id_shape @ [''-'']) (drop i f)
                             \<and> (\<forall>j<i. \<not> has_shape (id_shape @ [''-'']) (drop j f))}"
    by (rule find_prefixes_set)
  show "\<forall>(file_type, fpaths) \<in> {(''image'', ntf_fpaths), (''rpc'', rpc_fpaths), (''info'', info_fpaths)}.
         map_of (pan (classify_all ntf_fpaths rpc_fpaths info_fpaths p)) file_type =
           last_matching (\<lambda>f. sublist p f \<and> sublist ''-P1BS-'' f) fpaths
       \<and> map_of (msi (classify_all ntf_fpaths rpc_fpaths info_fpaths p)) file_type =
           last_matching (\<lambda>f. sublist p f \<and> \<not> sublist ''-P1BS-'' f \<and> sublist ''-M1BS-'' f) fpaths
       \<and> map_of (swir (classify_all ntf_fpaths rpc_fpaths info_fpaths p)) file_type =
           last_matching (\<lambda>f. sublist p f \<and> \<not> sublist ''-P1BS-'' f \<and> \<not> sublist ''-M1BS-'' f
                                \<and> sublist ''-A1BS-'' f) fpaths"
    by (simp add: classify_all_pan classify_all_msi classify_all_swir Let_def)
qed

text \<open>
  Claim C10 as stated fails on two discovered files whose names carry an identifier of
  two digits, three upper-case letters and eight digits: an image named
  \<^verbatim>\<open>12ABC34567890.ntf\<close>, where no hyphen follows the identifier, and an archive
  named \<^verbatim>\<open>12ABC34567890-P1BS-a.tar\<close>, which is not an image. Neither yields an
  identifier, so no record is made.
\<close>

theorem collection_classifier_counterexample:
  "has_shape id_shape ''12ABC34567890.ntf''
   \<and> find_prefixes (walk_fpaths [(''/img'', [], [''12ABC34567890.ntf''])] ''.ntf'') = []
   \<and> has_shape id_shape ''12ABC34567890-P1BS-a.tar''
   \<and> find_prefixes (walk_fpaths [(''/img'', [], [''12ABC34567890-P1BS-a.tar''])] ''.ntf'') = []"
  by code_simp

lemma example_last_matching:
  "last_matching (\<lambda>f. sublist ''15FEB15142542'' f \<and> sublist ''-P1BS-'' f) example_ntf =
     Some ''/img/15FEB15142542-P1BS-a.ntf''"
  "last_matching (\<lambda>f. sublist ''15FEB15142542'' f \<and> \<not> sublist ''-P1BS-'' f \<and> sublist ''-M1BS-'' f)
     example_info = Some ''/img/15FEB15142542-M1BS-a.tar''"
  "last_matching (\<lambda>f. sublist ''15FEB15142542'' f \<and> \<not> sublist ''-P1BS-'' f \<and> \<not> sublist ''-M1BS-'' f
                      \<and> sublist ''-A1BS-'' f) example_rpc = None"
  by code_simp+

lemma example_walk_ntf:
  "path_join ''/img'' ''16MAR16101010-P1BS-b.NTF'' = ''/img/16MAR16101010-P1BS-b.NTF''"
  "suffix ''.ntf'' (lower ''16MAR16101010-P1BS-b.NTF'')"
  by code_simp+

text \<open>The walk and the classification on the example files.\<close>

theorem collection_classifier_witness:
  "''/img/16MAR16101010-P1BS-b.NTF'' \<in> set (walk_fpaths example_walk ''.ntf'')
   \<and> map_of (pan (classify_all example_ntf example_rpc example_info ''15FEB15142542'')) ''image'' =
       Some ''/img/15FEB15142542-P1BS-a.ntf''
   \<and> map_of (msi (classify_all example_ntf example_rpc example_info ''15FEB15142542'')) ''info'' =
       Some ''/img/15FEB15142542-M1BS-a.tar''
   \<and> map_of (swir (classify_all example_ntf example_rpc example_info ''15FEB15142542'')) ''rpc'' =
       None"
proof -
  note c = collection_classifier[where walk = example_walk and ext = "''.ntf''"
      and ntf_fpaths = example_ntf and rpc_fpaths = example_rpc and info_fpaths = example_info
      and p = "''15FEB15142542''"]
  let ?files = "[''15FEB15142542-P1BS-a.ntf'', ''15FEB15142542-P1BS-a.tar'',
                     ''15FEB15142542-M1BS-a.ntf'', ''15FEB15142542-M1BS-a.tar'',
                     ''16MAR16101010-P1BS-b.NTF'', ''16MAR16101010-P1BS-b.tar'',
                     ''16MAR16101010-M1BS-b.ntf'', ''readme.txt'']"
  have w: "(''/img'', [], ?files) \<in> set example_walk"
    unfolding example_walk_def by (rule list.set_intros(1))
  have m: "''16MAR16101010-P1BS-b.NTF'' \<in> set ?files"
    by code_simp
  have "\<exists>root dirs files file.
          ''/img/16MAR16101010-P1BS-b.NTF'' = path_join root file \<and>
          (root, dirs, files) \<in> set example_walk \<and>
          file \<in> set files \<and> suffix ''.ntf'' (lower file)"
    apply (rule exI[of _ "''/img''"])
    apply (rule exI[of _ "[]"])
    apply (rule exI[of _ ?files])
    apply (rule exI[of _ "''16MAR16101010-P1BS-b.NTF''"])
    apply (intro conjI)
       apply (rule example_walk_ntf(1)[symmetric])
      apply (rule w)
     apply (rule m)
    apply (rule example_walk_ntf(2))
    done
  then have 1: "''/img/16MAR16101010-P1BS-b.NTF'' \<in> set (walk_fpaths example_walk ''.ntf'')"
    by (simp only: c[THEN conjunct1] mem_Collect_eq)
  note c3 = c[THEN conjunct2, THEN conjunct2]
  have a: "(''image'', example_ntf) \<in>
             {(''image'', example_ntf), (''rpc'', example_rpc), (''info'', example_info)}"
    by (rule insertI1)
  have b: "(''rpc'', example_rpc) \<in>
             {(''image'', example_ntf), (''rpc'', example_rpc), (''info'', example_info)}"
    by (rule insertI2, rule insertI1)
  have d: "(''info'', example_info) \<in>
             {(''image'', example_ntf), (''rpc'', example_rpc), (''info'', example_info)}"
    by (rule insertI2, rule insertI2, rule insertI1)
  from bspec[OF c3 a] bspec[OF c3 b] bspec[OF c3 d] have
    "map_of (pan (classify_all example_ntf example_rpc example_info ''15FEB15142542'')) ''image'' =
       Some ''/img/15FEB15142542-P1BS-a.ntf''
   \<and> map_of (msi (classify_all example_ntf example_rpc example_info ''15FEB15142542'')) ''info'' =
       Some ''/img/15FEB15142542-M1BS-a.tar''
   \<and> map_of (swir (classify_all example_ntf example_rpc example_info ''15FEB15142542'')) ''rpc'' =
       None"
    by (simp only: prod.case example_last_matching)
  with 1 show ?thesis by (rule conjI)
qed

section \<open>Properties of the choice of the most nadir collection\<close>

lemma nadir_fold:
  assumes "fold (\<lambda>(c, a). nadir_update a c) xs (lo, n) = (lo', n')"
  shows "(lo' = lo \<and> n' = n \<and> (case lo of None \<Rightarrow> xs = [] | Some l \<Rightarrow> \<forall>(c, a) \<in> set xs. l \<le> a))
       \<or> (\<exists>pre c m post. xs = pre @ (c, m) # post \<and> lo' = Some m \<and> n' = c
             \<and> (\<forall>(c', a) \<in> set pre. m < a) \<and> (\<forall>(c', a) \<in> set post. m \<le> a)
             \<and> (case lo of None \<Rightarrow> True | Some l \<Rightarrow> m < l))"
  using assms
proof (induction xs arbitrary: lo n)
  case Nil
  then show ?case by (auto split: option.splits)
next
  case (Cons x xs)
  obtain c0 a0 where x: "x = (c0, a0)" by (cases x)
  show ?case
  proof (cases "case lo of None \<Rightarrow> True | Some l \<Rightarrow> a0 < l")
    case True
    then have step: "nadir_update a0 c0 (lo, n) = (Some a0, c0)"
      by (simp add: nadir_update_def)
    with Cons.prems have f: "fold (\<lambda>(c, a). nadir_update a c) xs (Some a0, c0) = (lo', n')"
      by (simp add: x)
    from Cons.IH[OF f] show ?thesis
    proof (elim disjE exE conjE)
      assume u: "lo' = Some a0" "n' = c0"
        "case Some a0 of None \<Rightarrow> xs = [] | Some l \<Rightarrow> \<forall>(c, a) \<in> set xs. l \<le> a"
      have e: "x # xs = [] @ (c0, a0) # xs" by (simp add: x)
      have p: "\<forall>(c', a) \<in> set []. a0 < (a :: real)" by simp
      have q: "\<forall>(c, a) \<in> set xs. a0 \<le> a" using u(3) by simp
      have "\<exists>pre c m post. x # xs = pre @ (c, m) # post \<and> lo' = Some m \<and> n' = c
             \<and> (\<forall>(c', a) \<in> set pre. m < a) \<and> (\<forall>(c', a) \<in> set post. m \<le> a)
             \<and> (case lo of None \<Rightarrow> True | Some l \<Rightarrow> m < l)"
        apply (rule exI[of _ "[]"], rule exI[of _ c0], rule exI[of _ a0], rule exI[of _ xs])
        using e p q u(1,2) True by simp
      then show ?thesis by (rule disjI2)
    next
      fix pre c m post
      assume d: "xs = pre @ (c, m) # post" "lo' = Some m" "n' = c"
        "\<forall>(c', a) \<in> set pre. m < a" "\<forall>(c', a) \<in> set post. m \<le> a"
        "case Some a0 of None \<Rightarrow> True | Some l \<Rightarrow> m < l"
      have e: "x # xs = ((c0, a0) # pre) @ (c, m) # post" by (simp add: x d(1))
      have "\<forall>(c', a) \<in> set ((c0, a0) # pre). m < a" using d(4,6) by auto
      moreover have "case lo of None \<Rightarrow> True | Some l \<Rightarrow> m < l"
        using True d(6) by (auto split: option.splits)
      ultimately show ?thesis using e d(2,3,5) by blast
    qed
  next
    case False
    then obtain l where l: "lo = Some l" "l \<le> a0" by (auto split: option.splits)
    then have step: "nadir_update a0 c0 (lo, n) = (lo, n)"
      by (simp add: nadir_update_def)
    with Cons.prems have f: "fold (\<lambda>(c, a). nadir_update a c) xs (lo, n) = (lo', n')"
      by (simp add: x)
    from Cons.IH[OF f] show ?thesis
    proof (elim disjE exE conjE)
      assume u: "lo' = lo" "n' = n"
        "case lo of None \<Rightarrow> xs = [] | Some l \<Rightarrow> \<forall>(c, a) \<in> set xs. l \<le> a"
      then show ?thesis using l by (auto simp: x)
    next
      fix pre c m post
      assume d: "xs = pre @ (c, m) # post" "lo' = Some m" "n' = c"
        "\<forall>(c', a) \<in> set pre. m < a" "\<forall>(c', a) \<in> set post. m \<le> a"
        "case lo of None \<Rightarrow> True | Some l \<Rightarrow> m < l"
      have e: "x # xs = ((c0, a0) # pre) @ (c, m) # post" by (simp add: x d(1))
      have "m < a0" using d(6) l by simp
      then have "\<forall>(c', a) \<in> set ((c0, a0) # pre). m < a" using d(4) by auto
      then show ?thesis using e d(2,3,5,6) by blast
    qed
  qed
qed

lemma pansharpen_loop_fold:
  assumes "pansharpen_loop t wd items st tr = (tr', Inr (items', st'))"
  shows "\<exists>angles. list_all2 (reads_angle t) items angles
          \<and> st' = fold (\<lambda>(c, a). nadir_update a c) (zip (map fst items) angles) st
          \<and> map fst items' = map fst items"
  using assms
proof (induction items arbitrary: st tr items')
  case Nil
  then show ?case by simp
next
  case (Cons item items)
  obtain cid files where item: "item = (cid, files)" by (cases item)
  from Cons.prems obtain image_fpath a rest' tr1 where
    img: "map_of (pan files) ''image'' = Some image_fpath" and
    ang: "obliquity_angle t image_fpath = Inr a" and
    rec: "pansharpen_loop t wd items (nadir_update a cid st) tr1 = (tr', Inr (rest', st'))" and
    it: "map fst items' = cid # map fst rest'"
    by (auto simp: item Let_def split: option.splits if_splits sum.splits prod.splits)
  from Cons.IH[OF rec] obtain angles where
    a: "list_all2 (reads_angle t) items angles"
    "st' = fold (\<lambda>(c, a). nadir_update a c) (zip (map fst items) angles) (nadir_update a cid st)"
    "map fst rest' = map fst items"
    by blast
  have "list_all2 (reads_angle t) (item # items) (a # angles)"
    using a(1) img ang by (simp add: reads_angle_def item)
  moreover have "st' = fold (\<lambda>(c, a). nadir_update a c) (zip (map fst (item # items)) (a # angles)) st"
    using a(2) by (simp add: item)
  moreover have "map fst items' = map fst (item # items)"
    using it a(3) by (simp add: item)
  ultimately show ?case by blast
qed

lemma pansharpen_loop_ok:
  assumes "tools_succeed t" "\<forall>(c, f) \<in> set d. ready2 f"
  shows "\<exists>tr' d' st'. pansharpen_loop t wd d st tr = (tr', Inr (d', st'))"
  using assms(2)
proof (induction d arbitrary: tr st)
  case Nil
  then show ?case by simp
next
  case (Cons item d)
  obtain c f where item: "item = (c, f)" by (cases item)
  from Cons.prems have r: "ready2 f" and rest: "\<forall>(c, f) \<in> set d. ready2 f"
    by (auto simp: item)
  from r obtain op om im where k: "map_of (pan f) ''ortho_img_fpath'' = Some op"
    "map_of (msi f) ''ortho_img_fpath'' = Some om" "map_of (pan f) ''image'' = Some im"
    by (auto simp: ready2_def)
  from assms(1) obtain a where a: "obliquity_angle t im = Inr a"
    by (auto simp: tools_succeed_def)
  have g: "gdal_pansharpen t args" for args using assms(1) by (simp add: tools_succeed_def)
  let ?tr1 = "tr @ [Call ''gdal_pansharpen.py'' [''gdal_pansharpen.py'', op, om,
                 path_join wd (c @ ''_ortho_pansharpened.tif'')]]"
  from Cons.IH[OF rest, of "nadir_update a c st" ?tr1] obtain tr' d' st' where
    "pansharpen_loop t wd d (nadir_update a c st) ?tr1 = (tr', Inr (d', st'))"
    by blast
  then show ?case using k a g by (simp add: item Let_def)
qed


text \<open>
  Claim C7. When every tool returns and the collections are orthorectified, the
  pansharpening loop runs through. And whenever it runs through a non-empty
  dictionary, the collections in insertion order with their angles split into those
  before the chosen one, all with a strictly greater angle, the chosen one, whose angle
  is the lowest angle kept, and those after it, none with a smaller angle: the
  identifier returned is the first one whose angle is the minimum.
\<close>

theorem nadir_selector_first_minimum:
  "(tools_succeed t \<and> (\<forall>(c, f) \<in> set items. ready2 f) \<longrightarrow>
      (\<exists>tr' items' lowest nadir.
         pansharpen_loop t working_dir items (None, []) tr = (tr', Inr (items', lowest, nadir))))
   \<and> (pansharpen_loop t working_dir items (None, []) tr = (tr', Inr (items', lowest, nadir))
        \<and> items \<noteq> [] \<longrightarrow>
      (\<exists>angles pre m post.
           list_all2 (reads_angle t) items angles
         \<and> zip (map fst items) angles = pre @ (nadir, m) # post
         \<and> lowest = Some m
         \<and> (\<forall>(c, a) \<in> set pre. m < a)
         \<and> (\<forall>(c, a) \<in> set post. m \<le> a)))"
proof (intro conjI impI)
  assume "tools_succeed t \<and> (\<forall>(c, f) \<in> set items. ready2 f)"
  then have t: "tools_succeed t" and r: "\<forall>(c, f) \<in> set items. ready2 f" by simp_all
  from pansharpen_loop_ok[OF t r, of working_dir "(None, [])" tr]
  show "\<exists>tr' items' lowest nadir.
         pansharpen_loop t working_dir items (None, []) tr = (tr', Inr (items', lowest, nadir))"
    by (metis prod.exhaust)
next
  assume "pansharpen_loop t working_dir items (None, []) tr = (tr', Inr (items', lowest, nadir))
        \<and> items \<noteq> []"
  then have run: "pansharpen_loop t working_dir items (None, []) tr =
                   (tr', Inr (items', lowest, nadir))"
    and nonempty: "items \<noteq> []" by simp_all
  from pansharpen_loop_fold[OF run] obtain angles where
    a: "list_all2 (reads_angle t) items angles"
    "(lowest, nadir) = fold (\<lambda>(c, a). nadir_update a c) (zip (map fst items) angles) (None, [])"
    by blast
  have ne: "zip (map fst items) angles \<noteq> []"
    using nonempty a(1) by (cases items; cases angles) auto
  from nadir_fold[OF a(2)[symmetric]] ne obtain pre c m post where
    "zip (map fst items) angles = pre @ (c, m) # post" "lowest = Some m" "nadir = c"
    "\<forall>(c', a) \<in> set pre. m < a" "\<forall>(c', a) \<in> set post. m \<le> a"
    by auto
  with a(1) show "\<exists>angles pre m post.
           list_all2 (reads_angle t) items angles
         \<and> zip (map fst items) angles = pre @ (nadir, m) # post
         \<and> lowest = Some m
         \<and> (\<forall>(c, a) \<in> set pre. m < a)
         \<and> (\<forall>(c, a) \<in> set post. m \<le> a)"
    by blast
qed

lemma example_pansharpen:
  "pansharpen_loop example_tools ''/work'' example_items (None, []) [] =
     (map (\<lambda>(c, f). Call ''gdal_pansharpen.py''
             [''gdal_pansharpen.py'', ''/work/'' @ c @ ''-P1BS-a_ortho.tif'',
              ''/work/'' @ c @ ''-M1BS-a_ortho.tif'', ''/work/'' @ c @ ''_ortho_pansharpened.tif''])
        example_items,
      Inr (map (\<lambda>(c, f). (c, f\<lparr>pansharpened_fpath := ''/work/'' @ c @ ''_ortho_pansharpened.tif''\<rparr>))
             example_items,
           Some 12.5, ''16MAR16101010''))"
  by code_simp

text \<open>
  Three collections with angles 20, 12.5 and 12.5: the second, first of the two with
  the minimal angle, is chosen.
\<close>

theorem nadir_selector_first_minimum_witness:
  "(\<exists>tr' items' lowest nadir.
      pansharpen_loop example_tools ''/work'' example_items (None, []) [] =
        (tr', Inr (items', lowest, nadir)))
   \<and> (\<exists>angles pre m post.
      list_all2 (reads_angle example_tools) example_items angles
    \<and> zip (map fst example_items) angles = pre @ (''16MAR16101010'', m) # post
    \<and> Some 12.5 = Some m
    \<and> (\<forall>(c, a) \<in> set pre. m < a)
    \<and> (\<forall>(c, a) \<in> set post. m \<le> a))"
proof (rule conjI)
  have t: "tools_succeed example_tools"
  proof -
    have "\<exists>a. obliquity_angle example_tools path = Inr a" for path
      by (rule exI[of _ "if sublist ''15FEB'' path then 20 else 12.5"])
         (simp add: example_tools_def)
    then show ?thesis by (simp add: tools_succeed_def example_tools_def)
  qed
  have r: "\<forall>(c, f) \<in> set example_items. ready2 f"
    by (simp add: example_items_def example_item_def ready2_def)
  from t r show "\<exists>tr' items' lowest nadir.
      pansharpen_loop example_tools ''/work'' example_items (None, []) [] =
        (tr', Inr (items', lowest, nadir))"
    by (intro nadir_selector_first_minimum[THEN conjunct1, THEN mp] conjI)
next
  have ne: "example_items \<noteq> []" by (simp add: example_items_def)
  from example_pansharpen ne show "\<exists>angles pre m post.
      list_all2 (reads_angle example_tools) example_items angles
    \<and> zip (map fst example_items) angles = pre @ (''16MAR16101010'', m) # post
    \<and> Some 12.5 = Some m
    \<and> (\<forall>(c, a) \<in> set pre. m < a)
    \<and> (\<forall>(c, a) \<in> set post. m \<le> a)"
    by (intro nadir_selector_first_minimum[THEN conjunct2, THEN mp] conjI)
qed

section \<open>Properties of the run with and without usable collections\<close>

lemma orthorectify_image_ok:
  assumes "tools_succeed t" "map_of m ''image'' \<noteq> None"
  shows "\<exists>tr' p. orthorectify_image t wd dsm dtm m tr =
            (tr', Inr (AList.update ''ortho_img_fpath'' p m))"
  using assms by (auto simp: orthorectify_image_def tools_succeed_def Let_def)

lemma orthorectify_loop_ok:
  assumes "tools_succeed t" "\<forall>(c, f) \<in> set d. ready1 f"
  shows "\<exists>tr' d'. orthorectify_loop t wd dsm dtm d tr = (tr', Inr d')
           \<and> map fst d' = map fst d \<and> (\<forall>(c, f) \<in> set d'. ready2 f)"
  using assms(2)
proof (induction d arbitrary: tr)
  case Nil
  then show ?case by simp
next
  case (Cons item d)
  obtain c f where item: "item = (c, f)" by (cases item)
  from Cons.prems have r: "ready1 f" and rest: "\<forall>(c, f) \<in> set d. ready1 f"
    by (auto simp: item)
  from r orthorectify_image_ok[OF assms(1), of "pan f" wd dsm dtm tr]
  obtain tr1 p1 where 1: "orthorectify_image t wd dsm dtm (pan f) tr =
      (tr1, Inr (AList.update ''ortho_img_fpath'' p1 (pan f)))"
    by (auto simp: ready1_def)
  from r orthorectify_image_ok[OF assms(1), of "msi f" wd dsm dtm tr1]
  obtain tr2 p2 where 2: "orthorectify_image t wd dsm dtm (msi f) tr1 =
      (tr2, Inr (AList.update ''ortho_img_fpath'' p2 (msi f)))"
    by (auto simp: ready1_def)
  from Cons.IH[OF rest, of tr2] obtain tr3 d' where
    3: "orthorectify_loop t wd dsm dtm d tr2 = (tr3, Inr d')" "map fst d' = map fst d"
      "\<forall>(c, f) \<in> set d'. ready2 f"
    by blast
  have "ready2 (f\<lparr>pan := AList.update ''ortho_img_fpath'' p1 (pan f),
                  msi := AList.update ''ortho_img_fpath'' p2 (msi f)\<rparr>)"
    using r by (simp add: ready1_def ready2_def update_conv')
  then show ?case using 1 2 3 by (simp add: item)
qed

lemma rgb_loop_ok:
  assumes "tools_succeed t"
  shows "\<exists>tr' d'. rgb_loop t wd d tr = (tr', Inr d') \<and> map fst d' = map fst d"
proof (induction d arbitrary: tr)
  case Nil
  then show ?case by simp
next
  case (Cons item d)
  obtain c f where item: "item = (c, f)" by (cases item)
  have g: "msi_to_rgb t args" for args using assms(1) by (simp add: tools_succeed_def)
  let ?tr1 = "tr @ [Call ''msi_to_rgb'' [pansharpened_fpath f,
                 path_join wd (c @ ''_rgb_byte_image.tif''), ''-b'']]"
  from Cons.IH[of ?tr1] obtain tr' d' where
    "rgb_loop t wd d ?tr1 = (tr', Inr d')" "map fst d' = map fst d" by blast
  then show ?case using g by (simp add: item Let_def)
qed

lemma main_pipeline_empty:
  "main_pipeline t wd aoi bounds gsd p3d [] =
     (let dsm_file = path_join wd (aoi @ ''_P3D_DSM.tif'');
          dsm_args = [dsm_file, ''-s'', p3d, ''--bounds''] @ bounds @ [''--gsd'', gsd];
          dtm_args = [dsm_file, path_join wd (aoi @ ''_DTM.tif'')]
      in if \<not> generate_dsm t dsm_args
         then ([Call ''generate_dsm'' dsm_args], Inl (StageFailure ''generate_dsm''))
         else if \<not> fit_dtm t dtm_args
         then ([Call ''generate_dsm'' dsm_args, Call ''fit_dtm'' dtm_args],
               Inl (StageFailure ''fit_dtm''))
         else ([Call ''generate_dsm'' dsm_args, Call ''fit_dtm'' dtm_args], Inl (KeyError [])))"
  by (simp add: main_pipeline_def Let_def)

lemma main_pipeline_ok:
  assumes t: "tools_succeed t" and r: "\<forall>(c, f) \<in> set d. ready1 f" and ne: "d \<noteq> []"
  shows "\<exists>tr d' nadir fpath. main_pipeline t wd aoi bounds gsd p3d d = (tr, Inr (d', nadir, fpath))
           \<and> map fst d' = map fst d \<and> nadir \<in> set (map fst d)"
proof -
  let ?dsm = "path_join wd (aoi @ ''_P3D_DSM.tif'')"
  let ?dtm = "path_join wd (aoi @ ''_DTM.tif'')"
  let ?tr2 = "[Call ''generate_dsm'' ([?dsm, ''-s'', p3d, ''--bounds''] @ bounds @ [''--gsd'', gsd]),
               Call ''fit_dtm'' [?dsm, ?dtm]]"
  have g: "generate_dsm t args" "fit_dtm t args" for args
    using t by (simp_all add: tools_succeed_def)
  from orthorectify_loop_ok[OF t r, of wd ?dsm ?dtm ?tr2] obtain tr3 d3 where
    3: "orthorectify_loop t wd ?dsm ?dtm d ?tr2 = (tr3, Inr d3)" "map fst d3 = map fst d"
       "\<forall>(c, f) \<in> set d3. ready2 f"
    by blast
  from pansharpen_loop_ok[OF t 3(3), of wd "(None, [])" tr3] obtain tr4 d4 lowest nadir where
    4: "pansharpen_loop t wd d3 (None, []) tr3 = (tr4, Inr (d4, lowest, nadir))"
    by (metis prod.exhaust)
  from pansharpen_loop_fold[OF 4] obtain angles where
    a: "list_all2 (reads_angle t) d3 angles"
       "(lowest, nadir) = fold (\<lambda>(c, a). nadir_update a c) (zip (map fst d3) angles) (None, [])"
       "map fst d4 = map fst d3"
    by blast
  have d3ne: "d3 \<noteq> []" using 3(2) ne by auto
  have zne: "zip (map fst d3) angles \<noteq> []"
    using d3ne a(1) by (cases d3; cases angles) auto
  from nadir_fold[OF a(2)[symmetric]] zne obtain pre m post where
    z: "zip (map fst d3) angles = pre @ (nadir, m) # post"
    by auto
  have "(nadir, m) \<in> set (zip (map fst d3) angles)" unfolding z by simp
  then have nin: "nadir \<in> set (map fst d3)" by (rule set_zip_leftD)
  from rgb_loop_ok[OF t, of wd d4 tr4] obtain tr5 d5 where
    5: "rgb_loop t wd d4 tr4 = (tr5, Inr d5)" "map fst d5 = map fst d4"
    by blast
  have keys: "map fst d5 = map fst d" using 5(2) a(3) 3(2) by simp
  have "nadir \<in> fst ` set d5" using nin keys 3(2) by (metis set_map)
  then obtain files where f: "map_of d5 nadir = Some files"
    by (metis domIff dom_map_of_conv_image_fst not_Some_eq)
  have "main_pipeline t wd aoi bounds gsd p3d d = (tr5, Inr (d5, nadir, pansharpened_fpath files))"
    using g 3(1) 4 5(1) f by (simp add: main_pipeline_def Let_def)
  moreover have "nadir \<in> set (map fst d)" using nin 3(2) by simp
  ultimately show ?thesis using keys by blast
qed

lemma kept_ready1:
  assumes "distinct ps"
  shows "\<forall>(c, f) \<in> set (fst (group_collections ps ntf rpc info)). ready1 f"
  by (auto simp: group_collections_eq[OF assms] ready1_def collection_complete_def
        ensure_complete_modality_iff)

text \<open>
  Claim C9, as the code has it, for the prefixes found in the image paths, each taken
  once. The grouping loop only logs one warning for each skipped identifier. When it keeps no collection the run still ends with an error, but
  not at once: the DSM and DTM tools are called first, and when both return, the run
  ends with the \<open>KeyError\<close> of the empty identifier, at the lookup of the most nadir
  collection. When it keeps at least one collection and every tool returns, the run
  reaches that lookup with exactly the kept collections and a most nadir collection
  among them.
\<close>

theorem run_with_and_without_collections:
  assumes "distinct prefix_list"
    and "set prefix_list = set (find_prefixes ntf)"
    and "kept = fst (group_collections prefix_list ntf rpc info)"
    and "skipped = fst (snd (group_collections prefix_list ntf rpc info))"
    and "run = main_from_files t wd aoi bounds gsd p3d prefix_list ntf rpc info"
    and "dsm_args = [path_join wd (aoi @ ''_P3D_DSM.tif''), ''-s'', p3d, ''--bounds''] @ bounds @
                    [''--gsd'', gsd]"
    and "dtm_args = [path_join wd (aoi @ ''_P3D_DSM.tif''), path_join wd (aoi @ ''_DTM.tif'')]"
  shows "fst run = map skip_warning skipped
       \<and> (kept = [] \<longrightarrow> (\<exists>e. snd (snd run) = Inl e))
       \<and> (kept = [] \<and> generate_dsm t dsm_args \<and> fit_dtm t dtm_args \<longrightarrow>
            snd run = ([Call ''generate_dsm'' dsm_args, Call ''fit_dtm'' dtm_args],
                       Inl (KeyError [])))
       \<and> (kept \<noteq> [] \<and> tools_succeed t \<longrightarrow>
            (\<exists>d nadir fpath. snd (snd run) = Inr (d, nadir, fpath)
                \<and> map fst d = map fst kept \<and> nadir \<in> set (map fst kept)))"
proof -
  obtain w where gc: "group_collections prefix_list ntf rpc info = (kept, skipped, w)"
    using assms(3,4) by (cases "group_collections prefix_list ntf rpc info") auto
  have w: "w = map skip_warning skipped"
    using gc group_collections_eq[OF assms(1), of ntf rpc info] by auto
  have run: "run = (w, main_pipeline t wd aoi bounds gsd p3d kept)"
    by (simp add: assms(5) main_from_files_def gc split_def)
  have 1: "fst run = map skip_warning skipped" by (simp add: run w)
  have 2: "\<exists>e. snd (snd run) = Inl e" if "kept = []"
    using that by (simp add: run main_pipeline_empty Let_def)
  have 3: "snd run = ([Call ''generate_dsm'' dsm_args, Call ''fit_dtm'' dtm_args],
                       Inl (KeyError []))"
    if "kept = [] \<and> generate_dsm t dsm_args \<and> fit_dtm t dtm_args"
    using that by (simp add: run main_pipeline_empty Let_def assms(6,7))
  have 4: "\<exists>d nadir fpath. snd (snd run) = Inr (d, nadir, fpath)
                \<and> map fst d = map fst kept \<and> nadir \<in> set (map fst kept)"
    if k: "kept \<noteq> [] \<and> tools_succeed t"
  proof -
    have r: "\<forall>(c, f) \<in> set kept. ready1 f"
      using kept_ready1[OF assms(1), of ntf rpc info] by (simp add: assms(3))
    from k have t: "tools_succeed t" and ne: "kept \<noteq> []" by simp_all
    from main_pipeline_ok[OF t r ne, of wd aoi bounds gsd p3d] obtain tr d nadir fpath where
      m: "main_pipeline t wd aoi bounds gsd p3d kept = (tr, Inr (d, nadir, fpath))"
        "map fst d = map fst kept" "nadir \<in> set (map fst kept)"
      by blast
    have "snd (snd run) = Inr (d, nadir, fpath)" by (simp add: run m(1))
    with m(2,3) show ?thesis by blast
  qed
  from 1 2 3 4 show ?thesis by blast
qed

lemma example_complete:
  "collection_complete (classify_all example_ntf example_rpc example_info ''15FEB15142542'')"
  "\<not> collection_complete (classify_all example_ntf example_rpc example_info ''16MAR16101010'')"
  by (simp_all add: example_entry1 example_entry2 collection_complete_def
        ensure_complete_modality_def)

lemma example_prefixes:
  "find_prefixes example_ntf =
     [''15FEB15142542'', ''15FEB15142542'', ''16MAR16101010'', ''16MAR16101010'']"
  by code_simp

lemma example_group_two:
  "group_collections [''15FEB15142542'', ''16MAR16101010''] example_ntf example_rpc example_info =
     ([(''15FEB15142542'', classify_all example_ntf example_rpc example_info ''15FEB15142542'')],
      [''16MAR16101010''], [skip_warning ''16MAR16101010''])"
proof -
  have "distinct [''15FEB15142542'', ''16MAR16101010'']" by simp
  from group_collections_eq[OF this, of example_ntf example_rpc example_info]
  show ?thesis by (simp add: example_complete)
qed

lemma lone_prefixes: "find_prefixes lone_ntf = [''16MAR16101010'', ''16MAR16101010'']"
  by code_simp

lemma lone_entry:
  "classify_all lone_ntf lone_rpc lone_info ''16MAR16101010'' =
     \<lparr>pan = [(''image'', ''/img/16MAR16101010-P1BS-b.NTF''),
             (''rpc'', ''/rpc/16MAR16101010-P1BS-b.rpc''),
             (''info'', ''/img/16MAR16101010-P1BS-b.tar'')],
      pansharpened_fpath = [], rgb_fpath = [],
      msi = [(''image'', ''/img/16MAR16101010-M1BS-b.ntf''),
             (''rpc'', ''/rpc/16MAR16101010-M1BS-b.rpc'')],
      swir = [], angle = - 1\<rparr>"
  by code_simp

lemma lone_incomplete:
  "\<not> collection_complete (classify_all lone_ntf lone_rpc lone_info ''16MAR16101010'')"
  by (simp add: lone_entry collection_complete_def ensure_complete_modality_def)

lemma lone_group:
  "group_collections [''16MAR16101010''] lone_ntf lone_rpc lone_info =
     ([], [''16MAR16101010''], [skip_warning ''16MAR16101010''])"
proof -
  have "distinct [''16MAR16101010'']" by simp
  from group_collections_eq[OF this, of lone_ntf lone_rpc lone_info]
  show ?thesis by (simp add: lone_incomplete)
qed

lemma example_tools_succeed: "tools_succeed example_tools"
proof -
  have "\<exists>a. obliquity_angle example_tools path = Inr a" for path
    by (rule exI[of _ "if sublist ''15FEB'' path then 20 else 12.5"])
       (simp add: example_tools_def)
  then show ?thesis by (simp add: tools_succeed_def example_tools_def)
qed

text \<open>
  Two runs on prefixes found in the image paths: the files of the incomplete
  collection alone, where the only prefix found is skipped, and the example files,
  where one of the two prefixes found is kept.
\<close>

theorem run_with_and_without_collections_witness:
  "set [''16MAR16101010''] = set (find_prefixes lone_ntf)
   \<and> fst (main_from_files example_tools ''/work'' ''D1'' [''0'', ''0'', ''9'', ''9''] ''0.25''
          ''/data/p3d.las'' [''16MAR16101010''] lone_ntf lone_rpc lone_info) =
     [skip_warning ''16MAR16101010'']
   \<and> snd (main_from_files example_tools ''/work'' ''D1'' [''0'', ''0'', ''9'', ''9''] ''0.25''
          ''/data/p3d.las'' [''16MAR16101010''] lone_ntf lone_rpc lone_info) =
     ([Call ''generate_dsm''
         ([path_join ''/work'' (''D1'' @ ''_P3D_DSM.tif''), ''-s'', ''/data/p3d.las'', ''--bounds'']
          @ [''0'', ''0'', ''9'', ''9''] @ [''--gsd'', ''0.25'']),
       Call ''fit_dtm''
         [path_join ''/work'' (''D1'' @ ''_P3D_DSM.tif''), path_join ''/work'' (''D1'' @ ''_DTM.tif'')]],
      Inl (KeyError []))
   \<and> set [''15FEB15142542'', ''16MAR16101010''] = set (find_prefixes example_ntf)
   \<and> (\<exists>d nadir fpath.
        snd (snd (main_from_files example_tools ''/work'' ''D1'' [''0'', ''0'', ''9'', ''9''] ''0.25''
          ''/data/p3d.las'' [''15FEB15142542'', ''16MAR16101010'']
          example_ntf example_rpc example_info)) = Inr (d, nadir, fpath)
        \<and> map fst d = [''15FEB15142542''] \<and> nadir \<in> set [''15FEB15142542''])"
proof -
  have d1: "distinct [''16MAR16101010'']" by simp
  have d2: "distinct [''15FEB15142542'', ''16MAR16101010'']" by simp
  have p1: "set [''16MAR16101010''] = set (find_prefixes lone_ntf)"
    by (simp only: lone_prefixes) simp
  have p2: "set [''15FEB15142542'', ''16MAR16101010''] = set (find_prefixes example_ntf)"
    by (simp only: example_prefixes) simp
  have g: "generate_dsm example_tools args" "fit_dtm example_tools args" for args
    by (simp_all add: example_tools_def)
  note a = run_with_and_without_collections[OF d1 p1 refl refl refl refl refl,
      where t = example_tools and wd = "''/work''" and aoi = "''D1''"
        and bounds = "[''0'', ''0'', ''9'', ''9'']" and gsd = "''0.25''" and p3d = "''/data/p3d.las''"
        and rpc = lone_rpc and info = lone_info]
  note b = run_with_and_without_collections[OF d2 p2 refl refl refl refl refl,
      where t = example_tools and wd = "''/work''" and aoi = "''D1''"
        and bounds = "[''0'', ''0'', ''9'', ''9'']" and gsd = "''0.25''" and p3d = "''/data/p3d.las''"
        and rpc = example_rpc and info = example_info]
  have 1: "fst (main_from_files example_tools ''/work'' ''D1'' [''0'', ''0'', ''9'', ''9''] ''0.25''
          ''/data/p3d.las'' [''16MAR16101010''] lone_ntf lone_rpc lone_info) =
     [skip_warning ''16MAR16101010'']"
    using a[THEN conjunct1] by (simp only: lone_group fst_conv snd_conv list.map)
  have 2: "snd (main_from_files example_tools ''/work'' ''D1'' [''0'', ''0'', ''9'', ''9''] ''0.25''
          ''/data/p3d.las'' [''16MAR16101010''] lone_ntf lone_rpc lone_info) =
     ([Call ''generate_dsm''
         ([path_join ''/work'' (''D1'' @ ''_P3D_DSM.tif''), ''-s'', ''/data/p3d.las'', ''--bounds'']
          @ [''0'', ''0'', ''9'', ''9''] @ [''--gsd'', ''0.25'']),
       Call ''fit_dtm''
         [path_join ''/work'' (''D1'' @ ''_P3D_DSM.tif''), path_join ''/work'' (''D1'' @ ''_DTM.tif'')]],
      Inl (KeyError []))"
    apply (rule a[THEN conjunct2, THEN conjunct2, THEN conjunct1, THEN mp])
    apply (intro conjI)
      apply (simp only: lone_group fst_conv)
     apply (rule g(1))
    apply (rule g(2))
    done
  have 3: "\<exists>d nadir fpath.
        snd (snd (main_from_files example_tools ''/work'' ''D1'' [''0'', ''0'', ''9'', ''9''] ''0.25''
          ''/data/p3d.las'' [''15FEB15142542'', ''16MAR16101010'']
          example_ntf example_rpc example_info)) = Inr (d, nadir, fpath)
        \<and> map fst d = [''15FEB15142542''] \<and> nadir \<in> set [''15FEB15142542'']"
  proof -
    have "fst (group_collections [''15FEB15142542'', ''16MAR16101010'']
                 example_ntf example_rpc example_info) \<noteq> [] \<and> tools_succeed example_tools"
      by (simp only: example_group_two fst_conv example_tools_succeed) simp
    from b[THEN conjunct2, THEN conjunct2, THEN conjunct2, THEN mp, OF this]
    show ?thesis by (simp only: example_group_two fst_conv list.map)
  qed
  from p1 1 2 p2 3 show ?thesis by (intro conjI)
qed

text \<open>
  Claim C9 as stated fails on a run whose files hold one collection, incomplete: the
  only prefix found in the image paths is that collection's, the grouping leaves no
  collection and raises nothing, the DSM and DTM tools are then called, and the error
  that ends the run is the \<open>KeyError\<close> of the empty identifier.
\<close>

theorem run_without_collections_keyerror:
  "remdups (find_prefixes lone_ntf) = [''16MAR16101010'']
   \<and> fst (group_collections [''16MAR16101010''] lone_ntf lone_rpc lone_info) = []
   \<and> main_from_files example_tools ''/work'' ''D1'' [''0'', ''0'', ''9'', ''9''] ''0.25''
          ''/data/p3d.las'' [''16MAR16101010''] lone_ntf lone_rpc lone_info =
     ([skip_warning ''16MAR16101010''],
      [Call ''generate_dsm'' [''/work/D1_P3D_DSM.tif'', ''-s'', ''/data/p3d.las'', ''--bounds'',
                               ''0'', ''0'', ''9'', ''9'', ''--gsd'', ''0.25''],
       Call ''fit_dtm'' [''/work/D1_P3D_DSM.tif'', ''/work/D1_DTM.tif'']],
      Inl (KeyError []))"
  by (simp add: lone_prefixes lone_group main_from_files_def main_pipeline_empty Let_def
        path_join_def example_tools_def)

end
